theory Spec2Isabelle
  imports Complex_Main "HOL-Library.Sublist"
begin

section \<open>Shared types (shared/types)\<close>

datatype TaskStatus = PENDING | COMPLETED | CANCELLED

datatype TaskDifficulty = EASY | MEDIUM | HARD

text \<open>
  The \<open>Task\<close> interface. Optional fields (\<open>completedAt: number | null\<close>,
  \<open>dueDate?: number\<close>) are options. Field \<open>id\<close> is written \<open>task_id\<close>
  because \<open>id\<close> is the identity function of HOL.
\<close>

record Task =
  task_id :: string
  title :: string
  description :: string
  status :: TaskStatus
  difficulty :: TaskDifficulty
  createdAt :: int
  completedAt :: "int option"
  dueDate :: "int option"

section \<open>Unlock service (UnlockService)\<close>

record UnlockConditionResult =
  canUnlock :: bool
  completedTasks :: nat
  totalTasks :: nat
  completionPercentage :: int
  remainingTasks :: nat

datatype NotificationType = full_unlock | partial_unlock | progress_update

text \<open>
  The three message templates of \<open>processTaskCompletion\<close>, each with the values it
  interpolates; \<open>render_message\<close> gives the string the source builds.
\<close>

datatype message =
    AllTasksCompleted
  | ThresholdReached int
  | TasksCompleted nat nat

record UnlockNotification =
  ntype :: NotificationType
  message :: message
  n_completedTasks :: nat
  n_totalTasks :: nat
  xpEarned :: "int option"

record UnlockServiceConfig =
  autoUnlockOnComplete :: bool
  showNotifications :: bool
  partialUnlockThresholds :: "int list"

definition DEFAULT_CONFIG :: UnlockServiceConfig where
  "DEFAULT_CONFIG =
     \<lparr>autoUnlockOnComplete = True, showNotifications = True,
      partialUnlockThresholds = [50, 75]\<rparr>"

text \<open>
  The private fields of the class. The registered callback is external code: the model
  keeps whether one is registered (\<open>onUnlockCallback\<close>) and the list of notifications it
  has been invoked with, oldest first (\<open>callbackLog\<close>).
\<close>

record UnlockService =
  config :: UnlockServiceConfig
  onUnlockCallback :: bool
  previousCompletionPercentage :: int
  notifiedThresholds :: "int set"
  callbackLog :: "UnlockNotification list"

definition newUnlockService :: "UnlockServiceConfig \<Rightarrow> UnlockService" where
  "newUnlockService cfg =
     \<lparr>config = cfg, onUnlockCallback = False, previousCompletionPercentage = 0,
      notifiedThresholds = {}, callbackLog = []\<rparr>"

text \<open>
  \<open>Math.round\<close> gives the nearest integer, a tie going up; it is exact on the number it
  is given.
\<close>

definition js_round :: "rat \<Rightarrow> int" where
  "js_round x = \<lfloor>x + 1 / 2\<rfloor>"

text \<open>
  Numbers are IEEE 754 doubles: a quotient or product is the exact result rounded to the
  nearest number with a 53-bit significand, a tie going to the even significand.
  \<open>toDouble\<close> is that rounding on the rationals; exponents stay far from the limits of
  the format here (a percentage is between 0 and 100, a ratio of list lengths is 0 or at
  least \<open>2 ^ - 53\<close>). \<open>binaryExponent x\<close> is \<open>\<lfloor>log\<^sub>2 x\<rfloor>\<close> for positive \<open>x\<close>, found from the
  bit lengths of numerator and denominator.
\<close>

function bitLength :: "int \<Rightarrow> int" where
  "bitLength n = (if n \<le> 0 then 0 else 1 + bitLength (n div 2))"
  by pat_completeness auto
termination
  by (relation "measure nat") auto

declare bitLength.simps [simp del]

definition pow2 :: "int \<Rightarrow> rat" where
  "pow2 e = (if 0 \<le> e then 2 ^ nat e else 1 / 2 ^ nat (- e))"

definition roundHalfEven :: "rat \<Rightarrow> int" where
  "roundHalfEven x =
     (let f = \<lfloor>x\<rfloor>; r = x - of_int f
      in if r < 1 / 2 then f else if 1 / 2 < r then f + 1 else if even f then f else f + 1)"

definition binaryExponent :: "rat \<Rightarrow> int" where
  "binaryExponent x =
     (case quotient_of x of (p, q) \<Rightarrow>
        (let k = bitLength p - bitLength q
         in if pow2 k \<le> x then k else k - 1))"

definition toDouble :: "rat \<Rightarrow> rat" where
  "toDouble x =
     (if x = 0 then 0
      else if x < 0 then
        - (of_int (roundHalfEven (- x / pow2 (binaryExponent (- x) - 52)))
             * pow2 (binaryExponent (- x) - 52))
      else of_int (roundHalfEven (x / pow2 (binaryExponent x - 52)))
             * pow2 (binaryExponent x - 52))"

text \<open>
  \<open>Math.round((completedTasks / totalTasks) * 100)\<close>: the division and the
  multiplication each round to a double, then \<open>Math.round\<close>.
\<close>

definition percentageOf :: "nat \<Rightarrow> nat \<Rightarrow> int" where
  "percentageOf completed count =
     js_round (toDouble (toDouble (of_nat completed / of_nat count) * 100))"

definition evaluateUnlockCondition :: "Task list \<Rightarrow> UnlockConditionResult" where
  "evaluateUnlockCondition tasks =
     (let total = length tasks;
          completed = length (filter (\<lambda>t. status t = COMPLETED) tasks);
          percentage = (if total > 0 then percentageOf completed total else 0);
          remaining = total - completed
      in \<lparr>canUnlock = (total > 0 \<and> completed = total),
          completedTasks = completed,
          totalTasks = total,
          completionPercentage = percentage,
          remainingTasks = remaining\<rparr>)"

definition areAllTasksCompleted :: "Task list \<Rightarrow> bool" where
  "areAllTasksCompleted tasks =
     (if length tasks = 0 then False
      else list_all (\<lambda>task. status task = COMPLETED) tasks)"

text \<open>
  The loop of \<open>checkPartialUnlockThreshold\<close> over the configured thresholds: the first
  one that is reached, was not reached before and is not yet notified.
\<close>

fun firstCrossedThreshold :: "int \<Rightarrow> int \<Rightarrow> int set \<Rightarrow> int list \<Rightarrow> int option" where
  "firstCrossedThreshold percentage previous notified [] = None"
| "firstCrossedThreshold percentage previous notified (threshold # rest) =
     (if percentage \<ge> threshold \<and> previous < threshold \<and> threshold \<notin> notified
      then Some threshold
      else firstCrossedThreshold percentage previous notified rest)"

definition checkPartialUnlockThreshold ::
  "UnlockService \<Rightarrow> Task list \<Rightarrow> int option \<times> UnlockService" where
  "checkPartialUnlockThreshold s tasks =
     (case firstCrossedThreshold
             (completionPercentage (evaluateUnlockCondition tasks))
             (previousCompletionPercentage s) (notifiedThresholds s)
             (partialUnlockThresholds (config s)) of
        Some threshold \<Rightarrow>
          (Some threshold, s\<lparr>notifiedThresholds := insert threshold (notifiedThresholds s)\<rparr>)
      | None \<Rightarrow> (None, s))"

text \<open>
  \<open>calculateXPEarned\<close>: 100 base XP times the difficulty multiplier, rounded, summed
  over the completed tasks. The enum has three values, so the \<open>switch\<close> always takes
  one of its cases. The multipliers 0.75, 1.0 and 1.5 and their products with 100 are
  doubles, so these products are exact.
\<close>

definition difficultyMultiplier :: "TaskDifficulty \<Rightarrow> rat" where
  "difficultyMultiplier d = (case d of EASY \<Rightarrow> 3 / 4 | MEDIUM \<Rightarrow> 1 | HARD \<Rightarrow> 3 / 2)"

fun xpLoop :: "Task list \<Rightarrow> int \<Rightarrow> int" where
  "xpLoop [] totalXP = totalXP"
| "xpLoop (task # rest) totalXP =
     xpLoop rest (totalXP + js_round (100 * difficultyMultiplier (difficulty task)))"

definition calculateXPEarned :: "Task list \<Rightarrow> int" where
  "calculateXPEarned tasks = xpLoop (filter (\<lambda>t. status t = COMPLETED) tasks) 0"

definition invokeCallback :: "UnlockNotification \<Rightarrow> UnlockService \<Rightarrow> UnlockService" where
  "invokeCallback notification s =
     (if onUnlockCallback s then s\<lparr>callbackLog := callbackLog s @ [notification]\<rparr> else s)"

definition processTaskCompletion ::
  "UnlockService \<Rightarrow> Task list \<Rightarrow> UnlockNotification option \<times> UnlockService" where
  "processTaskCompletion s tasks =
     (let condition = evaluateUnlockCondition tasks in
      if canUnlock condition then
        (let notification =
               \<lparr>ntype = full_unlock, message = AllTasksCompleted,
                n_completedTasks = completedTasks condition,
                n_totalTasks = totalTasks condition,
                xpEarned = Some (calculateXPEarned tasks)\<rparr>
         in (Some notification,
             (invokeCallback notification s)
               \<lparr>previousCompletionPercentage := completionPercentage condition\<rparr>))
      else
        (case checkPartialUnlockThreshold s tasks of
           (Some reachedThreshold, s1) \<Rightarrow>
             (let notification =
                    \<lparr>ntype = partial_unlock, message = ThresholdReached reachedThreshold,
                     n_completedTasks = completedTasks condition,
                     n_totalTasks = totalTasks condition,
                     xpEarned = None\<rparr>
              in (Some notification,
                  (invokeCallback notification s1)
                    \<lparr>previousCompletionPercentage := completionPercentage condition\<rparr>))
         | (None, s1) \<Rightarrow>
             (if completionPercentage condition \<noteq> previousCompletionPercentage s1 then
                (Some \<lparr>ntype = progress_update,
                       message = TasksCompleted (completedTasks condition) (totalTasks condition),
                       n_completedTasks = completedTasks condition,
                       n_totalTasks = totalTasks condition,
                       xpEarned = None\<rparr>,
                 s1\<lparr>previousCompletionPercentage := completionPercentage condition\<rparr>)
              else (None, s1))))"

definition setUnlockCallback :: "UnlockService \<Rightarrow> UnlockService" where
  "setUnlockCallback s = s\<lparr>onUnlockCallback := True\<rparr>"

definition clearUnlockCallback :: "UnlockService \<Rightarrow> UnlockService" where
  "clearUnlockCallback s = s\<lparr>onUnlockCallback := False\<rparr>"

definition resetTracking :: "UnlockService \<Rightarrow> UnlockService" where
  "resetTracking s = s\<lparr>previousCompletionPercentage := 0, notifiedThresholds := {}\<rparr>"

text \<open>
  A sequence of \<open>processTaskCompletion\<close> calls on one service, one task list per call:
  the notifications returned, in call order, and the final state.
\<close>

fun processAll ::
  "UnlockService \<Rightarrow> Task list list \<Rightarrow> UnlockNotification option list \<times> UnlockService" where
  "processAll s [] = ([], s)"
| "processAll s (tasks # rest) =
     (case processTaskCompletion s tasks of
        (r, s1) \<Rightarrow> (case processAll s1 rest of (rs, s2) \<Rightarrow> (r # rs, s2)))"

text \<open>The strings of the message templates.\<close>

fun show_nat :: "nat \<Rightarrow> string" where
  "show_nat n =
     (if n < 10 then [char_of (48 + n)]
      else show_nat (n div 10) @ [char_of (48 + n mod 10)])"

definition show_int :: "int \<Rightarrow> string" where
  "show_int i = (if i < 0 then CHR ''-'' # show_nat (nat (- i)) else show_nat (nat i))"

fun render_message :: "message \<Rightarrow> string" where
  "render_message AllTasksCompleted = ''All tasks completed! Focus Mode unlocked.''"
| "render_message (ThresholdReached t) = show_int t @ ''% complete! Keep going!''"
| "render_message (TasksCompleted c n) = show_nat c @ ''/'' @ show_nat n @ '' tasks completed''"

declare show_nat.simps [simp del]

text \<open>
  The test suite's task builder (\<open>createTask\<close>); the reading of the clock is the
  argument \<open>now\<close>.
\<close>

definition createTask :: "int \<Rightarrow> string \<Rightarrow> TaskStatus \<Rightarrow> TaskDifficulty \<Rightarrow> Task" where
  "createTask now ident st d =
     \<lparr>task_id = ident, title = ''Task '' @ ident, description = '''', status = st,
      difficulty = d, createdAt = now,
      completedAt = (if st = COMPLETED then Some now else None), dueDate = None\<rparr>"

text \<open>
  A returned value is a \<open>partial_unlock\<close> notification for threshold \<open>t\<close>.
\<close>

definition isPartialFor :: "int \<Rightarrow> UnlockNotification option \<Rightarrow> bool" where
  "isPartialFor t r =
     (case r of Some n \<Rightarrow> ntype n = partial_unlock \<and> message n = ThresholdReached t
      | None \<Rightarrow> False)"

section \<open>Process monitor (ProcessMonitor)\<close>

record ProcessInfo =
  pid :: int
  name :: string
  executableName :: string

text \<open>
  The \<open>RestrictedApp\<close> interface; its fields \<open>id\<close>, \<open>name\<close>, \<open>executableName\<close> and
  \<open>path\<close> carry the prefix \<open>app_\<close> to keep them apart from those of \<open>ProcessInfo\<close>.
\<close>

record RestrictedApp =
  app_id :: string
  app_name :: string
  app_executableName :: string
  app_path :: "string option"
  isEnabled :: bool
  isPreset :: bool

record TerminationResult =
  success :: bool
  tr_pid :: int
  processName :: string
  error :: "string option"

record ProcessMonitorConfig =
  pollIntervalMs :: int
  gracefulTerminationFirst :: bool
  maxRetries :: int

definition DEFAULT_MONITOR_CONFIG :: ProcessMonitorConfig where
  "DEFAULT_MONITOR_CONFIG =
     \<lparr>pollIntervalMs = 1500, gracefulTerminationFirst = True, maxRetries = 3\<rparr>"

subsection \<open>Strings\<close>

text \<open>
  A string is the list of its characters, a character outside ASCII being the bytes of
  its UTF-8 encoding; the quote, the comma, the digits, the line feed and \<open>.exe\<close>, which
  are all the scanner looks for, are ASCII. \<open>String.prototype.toLowerCase\<close> belongs to
  the runtime, with the case mapping of Unicode, and not to the repository: the functions
  that call it take it as their first argument \<open>lower\<close>, and what is proved of them
  holds for every such function. \<open>asciiLowerCase\<close>, which maps A to Z to a to z and
  leaves every other character as it is, agrees with it on ASCII text and serves in
  examples.
\<close>

definition asciiLowerCase_char :: "char \<Rightarrow> char" where
  "asciiLowerCase_char c =
     (if 65 \<le> (of_char c :: nat) \<and> (of_char c :: nat) \<le> 90
      then char_of ((of_char c :: nat) + 32) else c)"

definition asciiLowerCase :: "string \<Rightarrow> string" where
  "asciiLowerCase s = map asciiLowerCase_char s"

text \<open>
  \<open>trim\<close> removes white space at the two ends of the output; no match of the scanner's
  expression, which begins and ends with a quote, reaches into it.
\<close>

definition is_whitespace :: "char \<Rightarrow> bool" where
  "is_whitespace c = ((of_char c :: nat) \<in> {9, 10, 11, 12, 13, 32})"

definition trim :: "string \<Rightarrow> string" where
  "trim s = rev (dropWhile is_whitespace (rev (dropWhile is_whitespace s)))"

text \<open>\<open>s.split(c)\<close> for a one-character separator: never empty, \<open>''''\<close> gives \<open>['''']\<close>.\<close>

fun split :: "char \<Rightarrow> string \<Rightarrow> string list" where
  "split c [] = [[]]"
| "split c (x # xs) =
     (if x = c then [] # split c xs
      else (case split c xs of
              [] \<Rightarrow> [[x]]
            | piece # pieces \<Rightarrow> (x # piece) # pieces))"

text \<open>\<open>s.replace(pattern, replacement)\<close> with a string pattern: the first occurrence only.\<close>

fun replace :: "string \<Rightarrow> string \<Rightarrow> string \<Rightarrow> string" where
  "replace pattern replacement [] = (if pattern = [] then replacement else [])"
| "replace pattern replacement (c # cs) =
     (if prefix pattern (c # cs) then replacement @ drop (length pattern) (c # cs)
      else c # replace pattern replacement cs)"

definition is_digit :: "char \<Rightarrow> bool" where
  "is_digit c = (48 \<le> (of_char c :: nat) \<and> (of_char c :: nat) \<le> 57)"

text \<open>\<open>parseInt(digits, 10)\<close> on a string of decimal digits.\<close>

definition parseInt :: "string \<Rightarrow> int" where
  "parseInt digits = foldl (\<lambda>acc c. 10 * acc + (int (of_char c) - 48)) 0 digits"

subsection \<open>Scanning\<close>

text \<open>
  The regular expression \<open>"([^"]+)","(\d+)"\<close> of \<open>getRunningProcesses\<close>, tried at the
  head of a string. Each group is followed by a quote that it cannot contain, so the
  greedy match is the only one: the name is the longest run without a quote, the number
  the longest run of digits.
\<close>

definition match_here :: "string \<Rightarrow> (string \<times> string) option" where
  "match_here s =
     (case s of
        [] \<Rightarrow> None
      | q # r \<Rightarrow>
          if q \<noteq> CHR 0x22 then None
          else
            (let nm = takeWhile (\<lambda>c. c \<noteq> CHR 0x22) r;
                 r1 = dropWhile (\<lambda>c. c \<noteq> CHR 0x22) r
             in if nm = [] \<or> take 3 r1 \<noteq> [CHR 0x22, CHR '','', CHR 0x22] then None
                else
                  (let r2 = drop 3 r1;
                       ds = takeWhile is_digit r2;
                       r3 = dropWhile is_digit r2
                   in if ds = [] \<or> take 1 r3 \<noteq> [CHR 0x22] then None
                      else Some (nm, ds))))"

text \<open>\<open>line.match(...)\<close>: the leftmost position where the expression matches.\<close>

fun line_match :: "string \<Rightarrow> (string \<times> string) option" where
  "line_match [] = None"
| "line_match (c # cs) =
     (case match_here (c # cs) of
        Some m \<Rightarrow> Some m
      | None \<Rightarrow> line_match cs)"

text \<open>
  What \<open>execAsync('tasklist /FO CSV /NH')\<close> gives: a rejection, or the standard output.
\<close>

datatype tasklist_result = TasklistFailed | TasklistOutput string

text \<open>The object pushed for a match: the two groups are the name and the pid.\<close>

definition toProcessInfo :: "(string \<Rightarrow> string) \<Rightarrow> string \<times> string \<Rightarrow> ProcessInfo" where
  "toProcessInfo lower m =
     (case m of (nm, ds) \<Rightarrow>
        \<lparr>pid = parseInt ds, name = replace ''.exe'' '''' nm, executableName = lower nm\<rparr>)"

fun parseLines ::
  "(string \<Rightarrow> string) \<Rightarrow> string list \<Rightarrow> ProcessInfo list \<Rightarrow> ProcessInfo list" where
  "parseLines lower [] processes = processes"
| "parseLines lower (line # lines) processes =
     (case line_match line of
        Some m \<Rightarrow> parseLines lower lines (processes @ [toProcessInfo lower m])
      | None \<Rightarrow> parseLines lower lines processes)"

definition getRunningProcesses :: "(string \<Rightarrow> string) \<Rightarrow> tasklist_result \<Rightarrow> ProcessInfo list" where
  "getRunningProcesses lower out =
     (case out of
        TasklistFailed \<Rightarrow> []
      | TasklistOutput stdout \<Rightarrow> parseLines lower (split (CHR 0x0A) (trim stdout)) [])"

text \<open>
  The matches of the scan, in line order: for each line of the output that the
  expression matches, the name and the pid as the operating system printed them.
\<close>

definition scanMatches :: "tasklist_result \<Rightarrow> (string \<times> string) list" where
  "scanMatches out =
     (case out of
        TasklistFailed \<Rightarrow> []
      | TasklistOutput stdout \<Rightarrow> List.map_filter line_match (split (CHR 0x0A) (trim stdout)))"

subsection \<open>Matching\<close>

text \<open>
  The two loops of \<open>detectRestrictedProcesses\<close>. The inner one pushes the process at the
  first enabled app it matches and breaks; \<open>detected\<close> is the list built so far.
\<close>

fun detectInner ::
  "(string \<Rightarrow> string) \<Rightarrow> ProcessInfo \<Rightarrow> RestrictedApp list \<Rightarrow> ProcessInfo list
     \<Rightarrow> ProcessInfo list" where
  "detectInner lower process [] detected = detected"
| "detectInner lower process (app # apps) detected =
     (if executableName process = lower (app_executableName app)
      then detected @ [process]
      else detectInner lower process apps detected)"

fun detectOuter ::
  "(string \<Rightarrow> string) \<Rightarrow> ProcessInfo list \<Rightarrow> RestrictedApp list \<Rightarrow> ProcessInfo list
     \<Rightarrow> ProcessInfo list" where
  "detectOuter lower [] enabledApps detected = detected"
| "detectOuter lower (process # processes) enabledApps detected =
     detectOuter lower processes enabledApps (detectInner lower process enabledApps detected)"

definition detectRestrictedProcesses ::
  "(string \<Rightarrow> string) \<Rightarrow> tasklist_result \<Rightarrow> RestrictedApp list \<Rightarrow> ProcessInfo list" where
  "detectRestrictedProcesses lower out restrictedApps =
     (let runningProcesses = getRunningProcesses lower out;
          enabledApps = filter isEnabled restrictedApps
      in detectOuter lower runningProcesses enabledApps [])"

subsection \<open>Termination\<close>

text \<open>
  The two requests \<open>taskkill /PID pid\<close> and \<open>taskkill /PID pid /F\<close>, and what
  \<open>execAsync\<close> does with one: it resolves, or rejects with an \<open>Error\<close> that has a
  message, or rejects with some other value. The operating system is a function from
  the requests already issued in this call and the next one to its outcome.
\<close>

datatype command = Taskkill int bool

datatype exec_result = Resolved | RejectedError string | RejectedOther

type_synonym os = "command list \<Rightarrow> command \<Rightarrow> exec_result"

definition render_command :: "command \<Rightarrow> string" where
  "render_command c =
     (case c of Taskkill p force \<Rightarrow>
        ''taskkill /PID '' @ show_int p @ (if force then '' /F'' else ''''))"

text \<open>
  The message of the outer \<open>catch\<close>:
  \<open>error instanceof Error ? error.message : 'Unknown error'\<close>.
\<close>

definition errorMessageOf :: "exec_result \<Rightarrow> string" where
  "errorMessageOf rejection =
     (case rejection of RejectedError m \<Rightarrow> m | _ \<Rightarrow> ''Unknown error'')"

text \<open>
  The force kill and the outer \<open>catch\<close>: the result, and the requests issued so far with
  the forced one added.
\<close>

definition forceKill ::
  "os \<Rightarrow> command list \<Rightarrow> int \<Rightarrow> string \<Rightarrow> TerminationResult \<times> command list" where
  "forceKill sys issued p nm =
     (case sys issued (Taskkill p True) of
        Resolved \<Rightarrow>
          (\<lparr>success = True, tr_pid = p, processName = nm, error = None\<rparr>,
           issued @ [Taskkill p True])
      | rejection \<Rightarrow>
          (\<lparr>success = False, tr_pid = p, processName = nm,
            error = Some (errorMessageOf rejection)\<rparr>,
           issued @ [Taskkill p True]))"

definition terminateProcess ::
  "ProcessMonitorConfig \<Rightarrow> os \<Rightarrow> int \<Rightarrow> string \<Rightarrow> TerminationResult \<times> command list" where
  "terminateProcess cfg sys p nm =
     (if gracefulTerminationFirst cfg then
        (case sys [] (Taskkill p False) of
           Resolved \<Rightarrow>
             (\<lparr>success = True, tr_pid = p, processName = nm, error = None\<rparr>,
              [Taskkill p False])
         | RejectedError m \<Rightarrow> forceKill sys [Taskkill p False] p nm
         | RejectedOther \<Rightarrow> forceKill sys [Taskkill p False] p nm)
      else forceKill sys [] p nm)"

text \<open>
  An operating system on which the target is gone: every request is rejected with the
  error of the test suite's "complete termination failure" case.
\<close>

definition processGone :: os where
  "processGone issued c = RejectedError ''Process not found''"

text \<open>
  An operating system that refuses the graceful request and obeys the forced one, as in
  the test suite's "force kill if graceful termination fails" case, and one that obeys
  every request.
\<close>

definition gracefulDenied :: os where
  "gracefulDenied issued c =
     (case c of Taskkill p force \<Rightarrow>
        if force then Resolved else RejectedError ''Access denied'')"

definition allGranted :: os where
  "allGranted issued c = Resolved"

text \<open>The tasklist output of a small scan, and the restriction list of the test suite.\<close>

definition sampleTasklist :: string where
  "sampleTasklist =
     [CHR 0x22] @ ''Steam.EXE'' @ [CHR 0x22, CHR '','', CHR 0x22] @ ''1234''
       @ [CHR 0x22, CHR '','', CHR 0x22] @ ''Console'' @ [CHR 0x22, CHR 0x0A]
     @ [CHR 0x22] @ ''notepad.exe'' @ [CHR 0x22, CHR '','', CHR 0x22] @ ''77''
       @ [CHR 0x22, CHR '','', CHR 0x22] @ ''Console'' @ [CHR 0x22, CHR 0x0A]"

definition sampleRestrictedApps :: "RestrictedApp list" where
  "sampleRestrictedApps =
     [\<lparr>app_id = ''steam'', app_name = ''Steam'', app_executableName = ''steam.exe'',
       app_path = None, isEnabled = True, isPreset = True\<rparr>,
      \<lparr>app_id = ''steam2'', app_name = ''Steam again'', app_executableName = ''STEAM.exe'',
       app_path = None, isEnabled = True, isPreset = False\<rparr>,
      \<lparr>app_id = ''notepad'', app_name = ''Notepad'', app_executableName = ''notepad.exe'',
       app_path = None, isEnabled = False, isPreset = False\<rparr>]"

section \<open>Focus mode store (useFocusModeStore)\<close>

text \<open>
  The \<open>FocusSession\<close> record of the history; \<open>id\<close> and \<open>startedAt\<close> carry the prefix
  \<open>session_\<close>. Timestamps and durations are integers, in milliseconds.
\<close>

record FocusSession =
  session_id :: string
  session_startedAt :: int
  endedAt :: int
  duration :: int
  tasksCompleted :: int
  wasUnlockedNaturally :: bool

record FocusModeStore =
  isActive :: bool
  startedAt :: "int option"
  totalFocusTime :: int
  currentSessionTime :: int
  restrictedApps :: "RestrictedApp list"
  sessions :: "FocusSession list"
  lastEmergencyUnlock :: "int option"
  emergencyUnlockCooldown :: int

definition DEFAULT_RESTRICTED_APPS :: "RestrictedApp list" where
  "DEFAULT_RESTRICTED_APPS =
     [\<lparr>app_id = ''steam'', app_name = ''Steam'', app_executableName = ''steam.exe'',
       app_path = None, isEnabled = True, isPreset = True\<rparr>,
      \<lparr>app_id = ''epic'', app_name = ''Epic Games'',
       app_executableName = ''EpicGamesLauncher.exe'',
       app_path = None, isEnabled = True, isPreset = True\<rparr>,
      \<lparr>app_id = ''discord'', app_name = ''Discord'', app_executableName = ''Discord.exe'',
       app_path = None, isEnabled = False, isPreset = True\<rparr>,
      \<lparr>app_id = ''spotify'', app_name = ''Spotify'', app_executableName = ''Spotify.exe'',
       app_path = None, isEnabled = False, isPreset = True\<rparr>]"

definition initialState :: FocusModeStore where
  "initialState =
     \<lparr>isActive = False, startedAt = None, totalFocusTime = 0, currentSessionTime = 0,
      restrictedApps = DEFAULT_RESTRICTED_APPS, sessions = [],
      lastEmergencyUnlock = None, emergencyUnlockCooldown = 30 * 60 * 1000\<rparr>"

text \<open>
  The test \<open>!x\<close> on a \<open>number | null\<close>: \<open>null\<close> and \<open>0\<close> are falsy, every other
  timestamp is truthy.
\<close>

definition truthy :: "int option \<Rightarrow> bool" where
  "truthy x = (case x of None \<Rightarrow> False | Some v \<Rightarrow> v \<noteq> 0)"

text \<open>
  Every reading of \<open>Date.now()\<close> and every result of \<open>generateId()\<close> is an argument of
  the operation that takes it.
\<close>

definition startFocusMode :: "int \<Rightarrow> FocusModeStore \<Rightarrow> FocusModeStore" where
  "startFocusMode now s = s\<lparr>isActive := True, startedAt := Some now, currentSessionTime := 0\<rparr>"

definition stopFocusMode ::
  "bool \<Rightarrow> int \<Rightarrow> int \<Rightarrow> string \<Rightarrow> FocusModeStore \<Rightarrow> FocusModeStore" where
  "stopFocusMode wasNatural completed now newId s =
     (case startedAt s of
        None \<Rightarrow> s
      | Some started \<Rightarrow>
          if \<not> truthy (Some started) then s
          else
            (let d = now - started;
                 newSession =
                   \<lparr>session_id = newId, session_startedAt = started, endedAt = now,
                    duration = d, tasksCompleted = completed,
                    wasUnlockedNaturally = wasNatural\<rparr>
             in s\<lparr>isActive := False, startedAt := None, currentSessionTime := 0,
                  totalFocusTime := totalFocusTime s + d,
                  sessions := sessions s @ [newSession]\<rparr>))"

definition updateSessionTime :: "int \<Rightarrow> FocusModeStore \<Rightarrow> FocusModeStore" where
  "updateSessionTime now s =
     (case startedAt s of
        None \<Rightarrow> s
      | Some started \<Rightarrow>
          if \<not> isActive s \<or> \<not> truthy (Some started) then s
          else s\<lparr>currentSessionTime := now - started\<rparr>)"

text \<open>The argument of \<open>addRestrictedApp\<close>: a \<open>RestrictedApp\<close> without \<open>id\<close> and \<open>isPreset\<close>.\<close>

record NewRestrictedApp =
  new_name :: string
  new_executableName :: string
  new_path :: "string option"
  new_isEnabled :: bool

definition addRestrictedApp :: "NewRestrictedApp \<Rightarrow> string \<Rightarrow> FocusModeStore \<Rightarrow> FocusModeStore" where
  "addRestrictedApp app newId s =
     s\<lparr>restrictedApps :=
          restrictedApps s @
            [\<lparr>app_id = newId, app_name = new_name app,
              app_executableName = new_executableName app, app_path = new_path app,
              isEnabled = new_isEnabled app, isPreset = False\<rparr>]\<rparr>"

definition removeRestrictedApp :: "string \<Rightarrow> FocusModeStore \<Rightarrow> FocusModeStore" where
  "removeRestrictedApp ident s =
     s\<lparr>restrictedApps := filter (\<lambda>app. app_id app \<noteq> ident \<or> isPreset app) (restrictedApps s)\<rparr>"

definition toggleRestrictedApp :: "string \<Rightarrow> FocusModeStore \<Rightarrow> FocusModeStore" where
  "toggleRestrictedApp ident s =
     s\<lparr>restrictedApps :=
          map (\<lambda>app. if app_id app = ident then app\<lparr>isEnabled := \<not> isEnabled app\<rparr> else app)
            (restrictedApps s)\<rparr>"

text \<open>
  A \<open>Partial<RestrictedApp>\<close>: each field is given or not; a given \<open>path\<close> may be
  \<open>undefined\<close>.
\<close>

record RestrictedAppUpdates =
  upd_id :: "string option"
  upd_name :: "string option"
  upd_executableName :: "string option"
  upd_path :: "string option option"
  upd_isEnabled :: "bool option"
  upd_isPreset :: "bool option"

definition applyUpdates :: "RestrictedApp \<Rightarrow> RestrictedAppUpdates \<Rightarrow> RestrictedApp" where
  "applyUpdates app updates =
     \<lparr>app_id = (case upd_id updates of None \<Rightarrow> app_id app | Some v \<Rightarrow> v),
      app_name = (case upd_name updates of None \<Rightarrow> app_name app | Some v \<Rightarrow> v),
      app_executableName =
        (case upd_executableName updates of None \<Rightarrow> app_executableName app | Some v \<Rightarrow> v),
      app_path = (case upd_path updates of None \<Rightarrow> app_path app | Some v \<Rightarrow> v),
      isEnabled = (case upd_isEnabled updates of None \<Rightarrow> isEnabled app | Some v \<Rightarrow> v),
      isPreset = (case upd_isPreset updates of None \<Rightarrow> isPreset app | Some v \<Rightarrow> v)\<rparr>"

definition updateRestrictedApp ::
  "string \<Rightarrow> RestrictedAppUpdates \<Rightarrow> FocusModeStore \<Rightarrow> FocusModeStore" where
  "updateRestrictedApp ident updates s =
     s\<lparr>restrictedApps :=
          map (\<lambda>app. if app_id app = ident then applyUpdates app updates else app)
            (restrictedApps s)\<rparr>"

definition canEmergencyUnlock :: "int \<Rightarrow> FocusModeStore \<Rightarrow> bool" where
  "canEmergencyUnlock now s =
     (if \<not> isActive s then False
      else
        (case lastEmergencyUnlock s of
           None \<Rightarrow> True
         | Some lastUnlock \<Rightarrow>
             if \<not> truthy (Some lastUnlock) then True
             else now - lastUnlock \<ge> emergencyUnlockCooldown s))"

text \<open>
  \<open>emergencyUnlock\<close> reads the clock in \<open>canEmergencyUnlock\<close> (\<open>nowCheck\<close>), in
  \<open>stopFocusMode\<close> (\<open>nowStop\<close>) and when it records the unlock (\<open>nowRecord\<close>). It returns
  its boolean and the new state.
\<close>

definition emergencyUnlock ::
  "int \<Rightarrow> int \<Rightarrow> string \<Rightarrow> int \<Rightarrow> FocusModeStore \<Rightarrow> bool \<times> FocusModeStore" where
  "emergencyUnlock nowCheck nowStop newId nowRecord s =
     (if \<not> canEmergencyUnlock nowCheck s then (False, s)
      else
        (True, (stopFocusMode False 0 nowStop newId s)\<lparr>lastEmergencyUnlock := Some nowRecord\<rparr>))"

definition getEmergencyUnlockCooldownRemaining :: "int \<Rightarrow> FocusModeStore \<Rightarrow> int" where
  "getEmergencyUnlockCooldownRemaining now s =
     (case lastEmergencyUnlock s of
        None \<Rightarrow> 0
      | Some lastUnlock \<Rightarrow>
          if \<not> truthy (Some lastUnlock) then 0
          else max 0 (emergencyUnlockCooldown s - (now - lastUnlock)))"

definition resetFocusMode :: "FocusModeStore \<Rightarrow> FocusModeStore" where
  "resetFocusMode s =
     s\<lparr>isActive := False, startedAt := None, currentSessionTime := 0,
       lastEmergencyUnlock := None\<rparr>"

subsection \<open>Sequences of store operations\<close>

text \<open>
  The operations that change the store, each with its arguments, clock readings and
  generated ids; \<open>perform\<close> applies one, \<open>run\<close> a sequence of them.
\<close>

datatype action =
    StartFocusMode int
  | StopFocusMode bool int int string
  | UpdateSessionTime int
  | AddRestrictedApp NewRestrictedApp string
  | RemoveRestrictedApp string
  | ToggleRestrictedApp string
  | UpdateRestrictedApp string RestrictedAppUpdates
  | EmergencyUnlock int int string int
  | ResetFocusMode

fun perform :: "action \<Rightarrow> FocusModeStore \<Rightarrow> FocusModeStore" where
  "perform (StartFocusMode now) s = startFocusMode now s"
| "perform (StopFocusMode wasNatural completed now newId) s =
     stopFocusMode wasNatural completed now newId s"
| "perform (UpdateSessionTime now) s = updateSessionTime now s"
| "perform (AddRestrictedApp app newId) s = addRestrictedApp app newId s"
| "perform (RemoveRestrictedApp ident) s = removeRestrictedApp ident s"
| "perform (ToggleRestrictedApp ident) s = toggleRestrictedApp ident s"
| "perform (UpdateRestrictedApp ident updates) s = updateRestrictedApp ident updates s"
| "perform (EmergencyUnlock nowCheck nowStop newId nowRecord) s =
     snd (emergencyUnlock nowCheck nowStop newId nowRecord s)"
| "perform ResetFocusMode s = resetFocusMode s"

fun run :: "action list \<Rightarrow> FocusModeStore \<Rightarrow> FocusModeStore" where
  "run [] s = s"
| "run (a # rest) s = run rest (perform a s)"

text \<open>
  The clock readings of an operation. \<open>Date.now()\<close> counts milliseconds since 1970, so on
  a running system every reading is positive.
\<close>

fun clockReadings :: "action \<Rightarrow> int list" where
  "clockReadings (StartFocusMode now) = [now]"
| "clockReadings (StopFocusMode wasNatural completed now newId) = [now]"
| "clockReadings (UpdateSessionTime now) = [now]"
| "clockReadings (EmergencyUnlock nowCheck nowStop newId nowRecord) =
     [nowCheck, nowStop, nowRecord]"
| "clockReadings _ = []"

definition positiveClock :: "action list \<Rightarrow> bool" where
  "positiveClock acts = list_all (\<lambda>a. list_all (\<lambda>t. 0 < t) (clockReadings a)) acts"

text \<open>
  The operations that leave the emergency-unlock record alone: all but
  \<open>emergencyUnlock\<close> itself and \<open>resetFocusMode\<close>.
\<close>

fun keepsUnlockRecord :: "action \<Rightarrow> bool" where
  "keepsUnlockRecord (EmergencyUnlock nowCheck nowStop newId nowRecord) = False"
| "keepsUnlockRecord ResetFocusMode = False"
| "keepsUnlockRecord _ = True"

text \<open>The lifecycle invariants of the store.\<close>

definition lifecycleInvariant :: "FocusModeStore \<Rightarrow> bool" where
  "lifecycleInvariant s =
     ((\<not> isActive s \<longrightarrow> startedAt s = None \<and> currentSessionTime s = 0) \<and>
      (isActive s \<longrightarrow> startedAt s \<noteq> None))"

text \<open>The timestamps the store holds are positive.\<close>

definition positiveTimestamps :: "FocusModeStore \<Rightarrow> bool" where
  "positiveTimestamps s =
     ((case startedAt s of None \<Rightarrow> True | Some t \<Rightarrow> 0 < t) \<and>
      (case lastEmergencyUnlock s of None \<Rightarrow> True | Some t \<Rightarrow> 0 < t))"

section \<open>Proofs\<close>

lemma floor_rat_numeral: "\<lfloor>numeral a / numeral b :: rat\<rfloor> = numeral a div numeral b"
  by (metis floor_divide_of_int_eq of_int_numeral)

lemma length_filter_eq_iff: "length (filter P xs) = length xs \<longleftrightarrow> (\<forall>x\<in>set xs. P x)"
proof (induction xs)
  case Nil show ?case by simp
next
  case (Cons x xs)
  have "length (filter P xs) \<le> length xs" by simp
  then have "length (filter P xs) \<noteq> Suc (length xs)" by linarith
  with Cons show ?case by auto
qed

lemma canUnlock_iff:
  "canUnlock (evaluateUnlockCondition tasks) \<longleftrightarrow>
     tasks \<noteq> [] \<and> (\<forall>t\<in>set tasks. status t = COMPLETED)"
  by (auto simp: evaluateUnlockCondition_def Let_def length_filter_eq_iff)

lemma xpLoop_sum:
  "xpLoop ts acc = acc + (\<Sum>t\<leftarrow>ts. js_round (100 * difficultyMultiplier (difficulty t)))"
  by (induction ts arbitrary: acc) auto

lemma reward_values:
  "js_round (100 * difficultyMultiplier EASY) = 75"
  "js_round (100 * difficultyMultiplier MEDIUM) = 100"
  "js_round (100 * difficultyMultiplier HARD) = 150"
  by (simp_all add: js_round_def difficultyMultiplier_def floor_rat_numeral)

lemma toDouble_1: "toDouble 1 = 1"
  by code_simp

lemma toDouble_100: "toDouble 100 = 100"
  by code_simp

lemma percentageOf_all: "0 < n \<Longrightarrow> percentageOf n n = 100"
  by (simp add: percentageOf_def toDouble_1 toDouble_100 js_round_def floor_rat_numeral)

lemma percentageOf_values:
  "percentageOf 0 2 = 0" "percentageOf 1 2 = 50"
  "percentageOf 0 4 = 0" "percentageOf 1 4 = 25" "percentageOf 2 4 = 50" "percentageOf 3 4 = 75"
  by code_simp+

text \<open>
  A percentage where the double falls below the tie that the exact quotient hits:
  \<open>(23 / 40) * 100\<close> is 57.49999999999999 and rounds to 57.
\<close>

lemma percentageOf_23_40: "percentageOf 23 40 = 57"
  by code_simp

lemma percentageOf_Suc:
  "percentageOf 0 (Suc (Suc 0)) = 0"
  "percentageOf (Suc 0) (Suc (Suc 0)) = 50"
  "percentageOf 0 (Suc (Suc (Suc (Suc 0)))) = 0"
  "percentageOf (Suc 0) (Suc (Suc (Suc (Suc 0)))) = 25"
  "percentageOf (Suc (Suc 0)) (Suc (Suc (Suc (Suc 0)))) = 50"
  "percentageOf (Suc (Suc (Suc 0))) (Suc (Suc (Suc (Suc 0)))) = 75"
  using percentageOf_values by (simp_all add: eval_nat_numeral)

lemma pct_full: "canUnlock (evaluateUnlockCondition tasks) \<Longrightarrow> completionPercentage (evaluateUnlockCondition tasks) = 100"
  by (auto simp: evaluateUnlockCondition_def Let_def percentageOf_all)

lemma fct_none: "previous \<ge> percentage \<Longrightarrow> firstCrossedThreshold percentage previous N ts = None"
  by (induction ts) auto

lemma fct_Some:
  "firstCrossedThreshold percentage previous N ts = Some t \<Longrightarrow>
     percentage \<ge> t \<and> previous < t \<and> t \<notin> N \<and>
     (\<exists>before after. ts = before @ t # after \<and>
        (\<forall>u\<in>set before. \<not> (percentage \<ge> u \<and> previous < u \<and> u \<notin> N)))"
proof (induction ts)
  case Nil then show ?case by simp
next
  case (Cons x ts)
  show ?case
  proof (cases "percentage \<ge> x \<and> previous < x \<and> x \<notin> N")
    case True
    with Cons.prems have "t = x" by simp
    with True have "x # ts = [] @ t # ts \<and> (\<forall>u\<in>set []. \<not> (percentage \<ge> u \<and> previous < u \<and> u \<notin> N))" by simp
    with True \<open>t = x\<close> show ?thesis by blast
  next
    case False
    with Cons.prems have "firstCrossedThreshold percentage previous N ts = Some t" by auto
    from Cons.IH[OF this] obtain before after where
      c: "percentage \<ge> t" "previous < t" "t \<notin> N" and
      d: "ts = before @ t # after" "\<forall>u\<in>set before. \<not> (percentage \<ge> u \<and> previous < u \<and> u \<notin> N)"
      by blast
    from d False have "x # ts = (x # before) @ t # after \<and> (\<forall>u\<in>set (x # before). \<not> (percentage \<ge> u \<and> previous < u \<and> u \<notin> N))"
      by simp
    with c show ?thesis by blast
  qed
qed

lemma prev_after:
  "previousCompletionPercentage (snd (processTaskCompletion s tasks)) =
     completionPercentage (evaluateUnlockCondition tasks)"
  by (auto simp: processTaskCompletion_def checkPartialUnlockThreshold_def invokeCallback_def Let_def
      split: option.splits prod.splits)

lemma process_no_unlock_cases:
  assumes "\<not> canUnlock (evaluateUnlockCondition tasks)"
  shows "processTaskCompletion s tasks =
    (case firstCrossedThreshold (completionPercentage (evaluateUnlockCondition tasks))
             (previousCompletionPercentage s) (notifiedThresholds s)
             (partialUnlockThresholds (config s)) of
       Some t \<Rightarrow>
         (Some \<lparr>ntype = partial_unlock, message = ThresholdReached t,
                n_completedTasks = completedTasks (evaluateUnlockCondition tasks),
                n_totalTasks = totalTasks (evaluateUnlockCondition tasks), xpEarned = None\<rparr>,
          (invokeCallback \<lparr>ntype = partial_unlock, message = ThresholdReached t,
                n_completedTasks = completedTasks (evaluateUnlockCondition tasks),
                n_totalTasks = totalTasks (evaluateUnlockCondition tasks), xpEarned = None\<rparr>
             (s\<lparr>notifiedThresholds := insert t (notifiedThresholds s)\<rparr>))
            \<lparr>previousCompletionPercentage := completionPercentage (evaluateUnlockCondition tasks)\<rparr>)
     | None \<Rightarrow>
         (if completionPercentage (evaluateUnlockCondition tasks) \<noteq> previousCompletionPercentage s
          then (Some \<lparr>ntype = progress_update,
                      message = TasksCompleted (completedTasks (evaluateUnlockCondition tasks))
                                  (totalTasks (evaluateUnlockCondition tasks)),
                      n_completedTasks = completedTasks (evaluateUnlockCondition tasks),
                      n_totalTasks = totalTasks (evaluateUnlockCondition tasks), xpEarned = None\<rparr>,
                s\<lparr>previousCompletionPercentage := completionPercentage (evaluateUnlockCondition tasks)\<rparr>)
          else (None, s)))"
  using assms
  by (simp add: processTaskCompletion_def checkPartialUnlockThreshold_def Let_def split: option.splits)

lemma process_unlock:
  assumes "canUnlock (evaluateUnlockCondition tasks)"
  shows "processTaskCompletion s tasks =
     (Some \<lparr>ntype = full_unlock, message = AllTasksCompleted,
            n_completedTasks = length tasks, n_totalTasks = length tasks,
            xpEarned = Some (calculateXPEarned tasks)\<rparr>,
      (invokeCallback \<lparr>ntype = full_unlock, message = AllTasksCompleted,
            n_completedTasks = length tasks, n_totalTasks = length tasks,
            xpEarned = Some (calculateXPEarned tasks)\<rparr> s)
        \<lparr>previousCompletionPercentage := 100\<rparr>)"
proof -
  from assms have "completedTasks (evaluateUnlockCondition tasks) = length tasks"
    "totalTasks (evaluateUnlockCondition tasks) = length tasks"
    by (auto simp: evaluateUnlockCondition_def Let_def)
  with assms pct_full[OF assms] show ?thesis
    by (simp add: processTaskCompletion_def Let_def)
qed

lemma second_call_none:
  assumes "\<not> canUnlock (evaluateUnlockCondition tasks)"
  shows "processTaskCompletion (snd (processTaskCompletion s tasks)) tasks =
           (None, snd (processTaskCompletion s tasks))"
proof -
  let ?s1 = "snd (processTaskCompletion s tasks)"
  have p: "previousCompletionPercentage ?s1 = completionPercentage (evaluateUnlockCondition tasks)"
    by (rule prev_after)
  show ?thesis
    by (simp add: process_no_unlock_cases[OF assms, of ?s1] p fct_none)
qed

lemma calculateXPEarned_sum:
  "calculateXPEarned tasks =
     (\<Sum>t\<leftarrow>filter (\<lambda>t. status t = COMPLETED) tasks.
        js_round (100 * difficultyMultiplier (difficulty t)))"
  by (simp add: calculateXPEarned_def xpLoop_sum)

text \<open>
  Claim C3. Whenever the list is non-empty and every task is completed,
  \<open>processTaskCompletion\<close> returns a \<open>full_unlock\<close> notification, in any tracking state
  (the check comes before the thresholds), and its \<open>xpEarned\<close> is the sum over the
  completed tasks of \<open>round (100 * m)\<close> with \<open>m\<close> = 0.75, 1.0, 1.5 for easy, medium,
  hard: 75, 100 and 150. In any list, a task that is not completed adds nothing to the sum.
\<close>

theorem C3_full_unlock_xp:
  assumes "totalTasks (evaluateUnlockCondition tasks) > 0"
    and "completedTasks (evaluateUnlockCondition tasks) = totalTasks (evaluateUnlockCondition tasks)"
  shows "fst (processTaskCompletion s tasks) =
           Some \<lparr>ntype = full_unlock, message = AllTasksCompleted,
                 n_completedTasks = length tasks, n_totalTasks = length tasks,
                 xpEarned = Some (\<Sum>t\<leftarrow>filter (\<lambda>t. status t = COMPLETED) tasks.
                                    js_round (100 * difficultyMultiplier (difficulty t)))\<rparr>
         \<and> difficultyMultiplier EASY = 3 / 4 \<and> js_round (100 * difficultyMultiplier EASY) = 75
         \<and> difficultyMultiplier MEDIUM = 1 \<and> js_round (100 * difficultyMultiplier MEDIUM) = 100
         \<and> difficultyMultiplier HARD = 3 / 2 \<and> js_round (100 * difficultyMultiplier HARD) = 150
         \<and> calculateXPEarned others =
             (\<Sum>t\<leftarrow>others. if status t = COMPLETED
                            then js_round (100 * difficultyMultiplier (difficulty t)) else 0)"
proof -
  from assms have cu: "canUnlock (evaluateUnlockCondition tasks)"
    by (simp add: evaluateUnlockCondition_def Let_def)
  have a: "fst (processTaskCompletion s tasks) =
           Some \<lparr>ntype = full_unlock, message = AllTasksCompleted,
                 n_completedTasks = length tasks, n_totalTasks = length tasks,
                 xpEarned = Some (\<Sum>t\<leftarrow>filter (\<lambda>t. status t = COMPLETED) tasks.
                                    js_round (100 * difficultyMultiplier (difficulty t)))\<rparr>"
    by (simp add: process_unlock[OF cu] calculateXPEarned_sum)
  have b: "calculateXPEarned others =
             (\<Sum>t\<leftarrow>others. if status t = COMPLETED
                            then js_round (100 * difficultyMultiplier (difficulty t)) else 0)"
    unfolding calculateXPEarned_sum by (induction others) auto
  have c: "difficultyMultiplier EASY = 3 / 4" "difficultyMultiplier MEDIUM = 1"
    "difficultyMultiplier HARD = 3 / 2"
    by (simp_all add: difficultyMultiplier_def)
  from a b c reward_values show ?thesis by simp
qed

theorem C3_full_unlock_xp_witness:
  "totalTasks (evaluateUnlockCondition
      [createTask 0 ''1'' COMPLETED EASY, createTask 0 ''2'' COMPLETED MEDIUM,
       createTask 0 ''3'' COMPLETED HARD]) > 0
   \<and> completedTasks (evaluateUnlockCondition
      [createTask 0 ''1'' COMPLETED EASY, createTask 0 ''2'' COMPLETED MEDIUM,
       createTask 0 ''3'' COMPLETED HARD]) = 3
   \<and> fst (processTaskCompletion (newUnlockService DEFAULT_CONFIG)
      [createTask 0 ''1'' COMPLETED EASY, createTask 0 ''2'' COMPLETED MEDIUM,
       createTask 0 ''3'' COMPLETED HARD]) =
      Some \<lparr>ntype = full_unlock, message = AllTasksCompleted,
            n_completedTasks = 3, n_totalTasks = 3, xpEarned = Some 325\<rparr>"
proof -
  let ?ts = "[createTask 0 ''1'' COMPLETED EASY, createTask 0 ''2'' COMPLETED MEDIUM,
       createTask 0 ''3'' COMPLETED HARD]"
  have h1: "totalTasks (evaluateUnlockCondition ?ts) > 0"
    by (simp add: evaluateUnlockCondition_def createTask_def Let_def)
  have h2: "completedTasks (evaluateUnlockCondition ?ts) = totalTasks (evaluateUnlockCondition ?ts)"
    by (simp add: evaluateUnlockCondition_def createTask_def Let_def)
  have h3: "completedTasks (evaluateUnlockCondition ?ts) = 3"
    by (simp add: evaluateUnlockCondition_def createTask_def Let_def)
  have len: "length ?ts = 3" by simp
  note T = C3_full_unlock_xp[OF h1 h2, of "newUnlockService DEFAULT_CONFIG" "[]"]
  from T have e: "js_round (100 * difficultyMultiplier EASY) = 75"
    "js_round (100 * difficultyMultiplier MEDIUM) = 100"
    "js_round (100 * difficultyMultiplier HARD) = 150" by blast+
  have sm: "(\<Sum>t\<leftarrow>filter (\<lambda>t. status t = COMPLETED) ?ts.
                js_round (100 * difficultyMultiplier (difficulty t))) = 325"
    by (simp add: createTask_def e)
  from T have "fst (processTaskCompletion (newUnlockService DEFAULT_CONFIG) ?ts) =
      Some \<lparr>ntype = full_unlock, message = AllTasksCompleted,
            n_completedTasks = length ?ts, n_totalTasks = length ?ts,
            xpEarned = Some (\<Sum>t\<leftarrow>filter (\<lambda>t. status t = COMPLETED) ?ts.
                js_round (100 * difficultyMultiplier (difficulty t)))\<rparr>" by blast
  then have "fst (processTaskCompletion (newUnlockService DEFAULT_CONFIG) ?ts) =
      Some \<lparr>ntype = full_unlock, message = AllTasksCompleted,
            n_completedTasks = 3, n_totalTasks = 3, xpEarned = Some 325\<rparr>"
    unfolding sm len .
  with h1 h3 show ?thesis by blast
qed

lemma filter_disjoint_le:
  "(\<And>x. P x \<Longrightarrow> \<not> Q x) \<Longrightarrow> length (filter P xs) + length (filter Q xs) \<le> length xs"
  by (induction xs) auto

lemma process_not_full:
  assumes "\<not> canUnlock (evaluateUnlockCondition tasks)"
  shows "fst (processTaskCompletion s tasks) = Some n \<Longrightarrow> ntype n \<noteq> full_unlock"
  by (auto simp: process_no_unlock_cases[OF assms] split: option.splits if_splits)

lemma processAll_replicate_not_full:
  assumes "\<not> canUnlock (evaluateUnlockCondition tasks)"
  shows "r \<in> set (fst (processAll s (replicate k tasks))) \<Longrightarrow> r = Some n \<Longrightarrow> ntype n \<noteq> full_unlock"
proof (induction k arbitrary: s)
  case 0 then show ?case by simp
next
  case (Suc k)
  obtain r1 s1 where p: "processTaskCompletion s tasks = (r1, s1)" by (cases "processTaskCompletion s tasks")
  obtain rs s2 where q: "processAll s1 (replicate k tasks) = (rs, s2)" by (cases "processAll s1 (replicate k tasks)")
  from Suc.prems(1) p q have "r = r1 \<or> r \<in> set (fst (processAll s1 (replicate k tasks)))" by auto
  then show ?case
  proof
    assume "r = r1"
    with p Suc.prems(2) have "fst (processTaskCompletion s tasks) = Some n" by simp
    then show ?thesis by (rule process_not_full[OF assms])
  next
    assume "r \<in> set (fst (processAll s1 (replicate k tasks)))"
    then show ?thesis using Suc.prems(2) by (rule Suc.IH)
  qed
qed

text \<open>
  Claim C10. A cancelled task is counted in \<open>totalTasks\<close> and not in \<open>completedTasks\<close>:
  a list with a cancelled task has \<open>canUnlock = false\<close>, \<open>areAllTasksCompleted\<close> is false,
  and no call of \<open>processTaskCompletion\<close> on it, however often repeated and from whatever
  tracking state, returns a \<open>full_unlock\<close> notification.
\<close>

theorem C10_cancelled_blocks_unlock:
  assumes "\<exists>t\<in>set tasks. status t = CANCELLED"
  shows "totalTasks (evaluateUnlockCondition tasks) = length tasks
       \<and> completedTasks (evaluateUnlockCondition tasks)
           + length (filter (\<lambda>t. status t = CANCELLED) tasks)
           \<le> totalTasks (evaluateUnlockCondition tasks)
       \<and> completedTasks (evaluateUnlockCondition tasks) < totalTasks (evaluateUnlockCondition tasks)
       \<and> \<not> canUnlock (evaluateUnlockCondition tasks)
       \<and> \<not> areAllTasksCompleted tasks
       \<and> (\<forall>n. fst (processTaskCompletion s tasks) = Some n \<longrightarrow> ntype n \<noteq> full_unlock)
       \<and> (\<forall>r\<in>set (fst (processAll s (replicate k tasks))).
             \<forall>n. r = Some n \<longrightarrow> ntype n \<noteq> full_unlock)"
proof -
  from assms obtain t where t: "t \<in> set tasks" "status t = CANCELLED" by blast
  then have nall: "\<not> (\<forall>t\<in>set tasks. status t = COMPLETED)" by force
  then have ncu: "\<not> canUnlock (evaluateUnlockCondition tasks)" by (simp add: canUnlock_iff)
  have tot: "totalTasks (evaluateUnlockCondition tasks) = length tasks"
    by (simp add: evaluateUnlockCondition_def Let_def)
  have com: "completedTasks (evaluateUnlockCondition tasks) =
               length (filter (\<lambda>t. status t = COMPLETED) tasks)"
    by (simp add: evaluateUnlockCondition_def Let_def)
  have le: "length (filter (\<lambda>t. status t = COMPLETED) tasks)
              + length (filter (\<lambda>t. status t = CANCELLED) tasks) \<le> length tasks"
    by (rule filter_disjoint_le) simp
  have "length (filter (\<lambda>t. status t = COMPLETED) tasks) \<le> length tasks" by simp
  moreover from nall have "length (filter (\<lambda>t. status t = COMPLETED) tasks) \<noteq> length tasks"
    by (simp add: length_filter_eq_iff)
  ultimately have lt: "length (filter (\<lambda>t. status t = COMPLETED) tasks) < length tasks"
    by linarith
  from nall have na: "\<not> areAllTasksCompleted tasks"
    by (simp add: areAllTasksCompleted_def list_all_iff)
  have one: "\<forall>n. fst (processTaskCompletion s tasks) = Some n \<longrightarrow> ntype n \<noteq> full_unlock"
    using process_not_full[OF ncu] by blast
  have many: "\<forall>r\<in>set (fst (processAll s (replicate k tasks))).
             \<forall>n. r = Some n \<longrightarrow> ntype n \<noteq> full_unlock"
    using processAll_replicate_not_full[OF ncu] by blast
  from tot com le lt ncu na one many show ?thesis by simp
qed

theorem C10_cancelled_blocks_unlock_witness:
  "(\<exists>t\<in>set [createTask 0 ''1'' COMPLETED MEDIUM, createTask 0 ''2'' CANCELLED MEDIUM].
       status t = CANCELLED)
   \<and> totalTasks (evaluateUnlockCondition
        [createTask 0 ''1'' COMPLETED MEDIUM, createTask 0 ''2'' CANCELLED MEDIUM]) = 2
   \<and> \<not> canUnlock (evaluateUnlockCondition
        [createTask 0 ''1'' COMPLETED MEDIUM, createTask 0 ''2'' CANCELLED MEDIUM])
   \<and> \<not> areAllTasksCompleted
        [createTask 0 ''1'' COMPLETED MEDIUM, createTask 0 ''2'' CANCELLED MEDIUM]"
proof -
  let ?ts = "[createTask 0 ''1'' COMPLETED MEDIUM, createTask 0 ''2'' CANCELLED MEDIUM]"
  have h: "\<exists>t\<in>set ?ts. status t = CANCELLED" by (simp add: createTask_def)
  have len: "length ?ts = 2" by simp
  from C10_cancelled_blocks_unlock[OF h, of "newUnlockService DEFAULT_CONFIG" 0] h len
  show ?thesis by metis
qed

text \<open>
  The full-completion state is delivered again: with one completed task, the first call
  returns \<open>full_unlock\<close> and so does an immediately following second call on the same
  list.
\<close>

theorem C1_repeat_full_unlock_counterexample:
  "fst (processTaskCompletion (newUnlockService DEFAULT_CONFIG)
          [createTask 0 ''1'' COMPLETED MEDIUM]) =
     Some \<lparr>ntype = full_unlock, message = AllTasksCompleted,
           n_completedTasks = 1, n_totalTasks = 1, xpEarned = Some 100\<rparr>
   \<and> fst (processTaskCompletion
            (snd (processTaskCompletion (newUnlockService DEFAULT_CONFIG)
                    [createTask 0 ''1'' COMPLETED MEDIUM]))
            [createTask 0 ''1'' COMPLETED MEDIUM]) =
     Some \<lparr>ntype = full_unlock, message = AllTasksCompleted,
           n_completedTasks = 1, n_totalTasks = 1, xpEarned = Some 100\<rparr>"
proof -
  have cu: "canUnlock (evaluateUnlockCondition [createTask 0 ''1'' COMPLETED MEDIUM])"
    by (simp add: canUnlock_iff createTask_def)
  have xp: "calculateXPEarned [createTask 0 ''1'' COMPLETED MEDIUM] = 100"
    by (simp add: calculateXPEarned_sum createTask_def reward_values)
  show ?thesis
    by (simp add: process_unlock[OF cu] xp)
qed

text \<open>
  Claim C1, as amended. If the list is not in the full-completion state, a second call of
  \<open>processTaskCompletion\<close> with the same list, right after the first, returns nothing and
  changes nothing: so after a \<open>partial_unlock\<close> or \<open>progress_update\<close> notification the
  second call returns nothing and invokes no callback. In the full-completion state
  (\<open>completedTasks = totalTasks > 0\<close>) every call returns the \<open>full_unlock\<close> notification
  again.
\<close>

theorem C1_repeat_call:
  "(\<not> canUnlock (evaluateUnlockCondition tasks) \<longrightarrow>
      processTaskCompletion (snd (processTaskCompletion s tasks)) tasks =
        (None, snd (processTaskCompletion s tasks)))
   \<and> (\<forall>n. fst (processTaskCompletion s tasks) = Some n \<and> ntype n \<noteq> full_unlock \<longrightarrow>
        fst (processTaskCompletion (snd (processTaskCompletion s tasks)) tasks) = None
        \<and> callbackLog (snd (processTaskCompletion (snd (processTaskCompletion s tasks)) tasks)) =
            callbackLog (snd (processTaskCompletion s tasks)))
   \<and> (canUnlock (evaluateUnlockCondition tasks) \<longrightarrow>
        fst (processTaskCompletion s tasks) \<noteq> None
        \<and> fst (processTaskCompletion (snd (processTaskCompletion s tasks)) tasks) =
            fst (processTaskCompletion s tasks))"
proof -
  have a: "\<not> canUnlock (evaluateUnlockCondition tasks) \<longrightarrow>
      processTaskCompletion (snd (processTaskCompletion s tasks)) tasks =
        (None, snd (processTaskCompletion s tasks))"
    using second_call_none by blast
  have b: "\<forall>n. fst (processTaskCompletion s tasks) = Some n \<and> ntype n \<noteq> full_unlock \<longrightarrow>
        fst (processTaskCompletion (snd (processTaskCompletion s tasks)) tasks) = None
        \<and> callbackLog (snd (processTaskCompletion (snd (processTaskCompletion s tasks)) tasks)) =
            callbackLog (snd (processTaskCompletion s tasks))"
  proof (intro allI impI)
    fix n assume n: "fst (processTaskCompletion s tasks) = Some n \<and> ntype n \<noteq> full_unlock"
    have "\<not> canUnlock (evaluateUnlockCondition tasks)"
    proof
      assume cu: "canUnlock (evaluateUnlockCondition tasks)"
      from n show False by (auto simp: process_unlock[OF cu])
    qed
    with a show "fst (processTaskCompletion (snd (processTaskCompletion s tasks)) tasks) = None
        \<and> callbackLog (snd (processTaskCompletion (snd (processTaskCompletion s tasks)) tasks)) =
            callbackLog (snd (processTaskCompletion s tasks))" by simp
  qed
  have c: "canUnlock (evaluateUnlockCondition tasks) \<longrightarrow>
        fst (processTaskCompletion s tasks) \<noteq> None
        \<and> fst (processTaskCompletion (snd (processTaskCompletion s tasks)) tasks) =
            fst (processTaskCompletion s tasks)"
  proof
    assume cu: "canUnlock (evaluateUnlockCondition tasks)"
    show "fst (processTaskCompletion s tasks) \<noteq> None
        \<and> fst (processTaskCompletion (snd (processTaskCompletion s tasks)) tasks) =
            fst (processTaskCompletion s tasks)"
      by (simp add: process_unlock[OF cu])
  qed
  from a b c show ?thesis by blast
qed

theorem C1_repeat_call_witness:
  "fst (processTaskCompletion (newUnlockService DEFAULT_CONFIG)
          [createTask 0 ''1'' COMPLETED MEDIUM, createTask 0 ''2'' PENDING MEDIUM]) =
     Some \<lparr>ntype = partial_unlock, message = ThresholdReached 50,
           n_completedTasks = 1, n_totalTasks = 2, xpEarned = None\<rparr>
   \<and> fst (processTaskCompletion
            (snd (processTaskCompletion (newUnlockService DEFAULT_CONFIG)
               [createTask 0 ''1'' COMPLETED MEDIUM, createTask 0 ''2'' PENDING MEDIUM]))
            [createTask 0 ''1'' COMPLETED MEDIUM, createTask 0 ''2'' PENDING MEDIUM]) = None"
proof -
  let ?ts = "[createTask 0 ''1'' COMPLETED MEDIUM, createTask 0 ''2'' PENDING MEDIUM]"
  let ?s = "newUnlockService DEFAULT_CONFIG"
  have ncu: "\<not> canUnlock (evaluateUnlockCondition ?ts)"
    by (simp add: canUnlock_iff createTask_def)
  have ev: "evaluateUnlockCondition ?ts =
      \<lparr>canUnlock = False, completedTasks = 1, totalTasks = 2, completionPercentage = 50,
       remainingTasks = 1\<rparr>"
    by (simp add: evaluateUnlockCondition_def createTask_def Let_def percentageOf_Suc)
  have first: "fst (processTaskCompletion ?s ?ts) =
     Some \<lparr>ntype = partial_unlock, message = ThresholdReached 50,
           n_completedTasks = 1, n_totalTasks = 2, xpEarned = None\<rparr>"
    by (simp add: process_no_unlock_cases[OF ncu] ev newUnlockService_def DEFAULT_CONFIG_def)
  then have h: "fst (processTaskCompletion ?s ?ts) =
     Some \<lparr>ntype = partial_unlock, message = ThresholdReached 50,
           n_completedTasks = 1, n_totalTasks = 2, xpEarned = None\<rparr>
     \<and> ntype \<lparr>ntype = partial_unlock, message = ThresholdReached 50,
           n_completedTasks = 1, n_totalTasks = 2, xpEarned = None\<rparr> \<noteq> full_unlock"
    by simp
  from C1_repeat_call[of ?ts ?s] ncu h first show ?thesis by blast
qed

lemma processAll_Cons:
  "fst (processAll s (tasks # calls)) =
     fst (processTaskCompletion s tasks) # fst (processAll (snd (processTaskCompletion s tasks)) calls)"
  "snd (processAll s (tasks # calls)) = snd (processAll (snd (processTaskCompletion s tasks)) calls)"
  by (simp_all split: prod.splits)

lemma process_config:
  "config (snd (processTaskCompletion s tasks)) = config s \<and>
   onUnlockCallback (snd (processTaskCompletion s tasks)) = onUnlockCallback s"
  by (auto simp: processTaskCompletion_def checkPartialUnlockThreshold_def invokeCallback_def Let_def
      split: option.splits prod.splits)

lemma notified_mono:
  "t \<in> notifiedThresholds s \<Longrightarrow> t \<in> notifiedThresholds (snd (processTaskCompletion s tasks))"
  by (auto simp: processTaskCompletion_def checkPartialUnlockThreshold_def invokeCallback_def Let_def
      split: option.splits prod.splits)

lemma partial_fires:
  assumes "processTaskCompletion s tasks = (Some n, s')" and "ntype n = partial_unlock"
  shows "\<not> canUnlock (evaluateUnlockCondition tasks) \<and>
     (\<exists>u. message n = ThresholdReached u \<and>
        firstCrossedThreshold (completionPercentage (evaluateUnlockCondition tasks))
           (previousCompletionPercentage s) (notifiedThresholds s)
           (partialUnlockThresholds (config s)) = Some u \<and>
        notifiedThresholds s' = insert u (notifiedThresholds s))"
proof -
  have ncu: "\<not> canUnlock (evaluateUnlockCondition tasks)"
  proof
    assume cu: "canUnlock (evaluateUnlockCondition tasks)"
    from assms show False by (auto simp: process_unlock[OF cu])
  qed
  from assms show ?thesis
    by (auto simp: process_no_unlock_cases[OF ncu] invokeCallback_def ncu
        split: option.splits if_splits)
qed

lemma isPartialFor_fires:
  assumes "isPartialFor t (fst (processTaskCompletion s tasks))"
  shows "firstCrossedThreshold (completionPercentage (evaluateUnlockCondition tasks))
           (previousCompletionPercentage s) (notifiedThresholds s)
           (partialUnlockThresholds (config s)) = Some t \<and>
         t \<in> notifiedThresholds (snd (processTaskCompletion s tasks))"
proof -
  obtain r s' where p: "processTaskCompletion s tasks = (r, s')"
    by (cases "processTaskCompletion s tasks")
  with assms obtain n where n: "r = Some n" "ntype n = partial_unlock" "message n = ThresholdReached t"
    by (auto simp: isPartialFor_def split: option.splits)
  from partial_fires[of s tasks n s'] p n show ?thesis by auto
qed

lemma no_fire_if_notified:
  "t \<in> notifiedThresholds s \<Longrightarrow> \<not> isPartialFor t (fst (processTaskCompletion s tasks))"
  using isPartialFor_fires[of t s tasks] fct_Some by blast

lemma processAll_no_fire:
  "t \<in> notifiedThresholds s \<Longrightarrow> filter (isPartialFor t) (fst (processAll s calls)) = []"
proof (induction calls arbitrary: s)
  case Nil then show ?case by simp
next
  case (Cons tasks calls)
  obtain r s1 where p: "processTaskCompletion s tasks = (r, s1)"
    by (cases "processTaskCompletion s tasks")
  obtain rs s2 where q: "processAll s1 calls = (rs, s2)" by (cases "processAll s1 calls")
  from notified_mono[OF Cons.prems, of tasks] p have "t \<in> notifiedThresholds s1" by simp
  from Cons.IH[OF this] q have "filter (isPartialFor t) rs = []" by simp
  moreover from no_fire_if_notified[OF Cons.prems, of tasks] p have "\<not> isPartialFor t r" by simp
  ultimately show ?case using p q by simp
qed

lemma processAll_at_most_once:
  "length (filter (isPartialFor t) (fst (processAll s calls))) \<le> 1"
proof (induction calls arbitrary: s)
  case Nil then show ?case by simp
next
  case (Cons tasks calls)
  obtain r s1 where p: "processTaskCompletion s tasks = (r, s1)"
    by (cases "processTaskCompletion s tasks")
  obtain rs s2 where q: "processAll s1 calls = (rs, s2)" by (cases "processAll s1 calls")
  show ?case
  proof (cases "isPartialFor t r")
    case True
    with isPartialFor_fires[of t s tasks] p have "t \<in> notifiedThresholds s1" by simp
    from processAll_no_fire[OF this, of calls] q have "filter (isPartialFor t) rs = []" by simp
    with True p q show ?thesis by simp
  next
    case False
    from Cons.IH[of s1] q have "length (filter (isPartialFor t) rs) \<le> 1" by simp
    with False p q show ?thesis by simp
  qed
qed

lemma process_same_tracking:
  assumes "config a = config b" "onUnlockCallback a = onUnlockCallback b"
    "previousCompletionPercentage a = previousCompletionPercentage b"
    "notifiedThresholds a = notifiedThresholds b"
  shows "fst (processTaskCompletion a tasks) = fst (processTaskCompletion b tasks) \<and>
     previousCompletionPercentage (snd (processTaskCompletion a tasks)) =
       previousCompletionPercentage (snd (processTaskCompletion b tasks)) \<and>
     notifiedThresholds (snd (processTaskCompletion a tasks)) =
       notifiedThresholds (snd (processTaskCompletion b tasks))"
  using assms
  by (auto simp: processTaskCompletion_def checkPartialUnlockThreshold_def invokeCallback_def Let_def
      split: option.splits prod.splits)

lemma processAll_same_tracking:
  assumes "config a = config b" "onUnlockCallback a = onUnlockCallback b"
    "previousCompletionPercentage a = previousCompletionPercentage b"
    "notifiedThresholds a = notifiedThresholds b"
  shows "fst (processAll a calls) = fst (processAll b calls)"
  using assms
proof (induction calls arbitrary: a b)
  case Nil then show ?case by simp
next
  case (Cons tasks calls)
  obtain r a1 where pa: "processTaskCompletion a tasks = (r, a1)"
    by (cases "processTaskCompletion a tasks")
  obtain r' b1 where pb: "processTaskCompletion b tasks = (r', b1)"
    by (cases "processTaskCompletion b tasks")
  from process_same_tracking[OF Cons.prems, of tasks] pa pb
  have e: "r = r'" "previousCompletionPercentage a1 = previousCompletionPercentage b1"
    "notifiedThresholds a1 = notifiedThresholds b1" by simp_all
  from process_config[of a tasks] process_config[of b tasks] pa pb Cons.prems
  have c: "config a1 = config b1" "onUnlockCallback a1 = onUnlockCallback b1" by simp_all
  from Cons.IH[OF c e(2,3)] have "fst (processAll a1 calls) = fst (processAll b1 calls)" .
  with e(1) pa pb show ?case by (simp add: processAll_Cons del: processAll.simps)
qed

lemma processAll_config:
  "config (snd (processAll s calls)) = config s \<and>
   onUnlockCallback (snd (processAll s calls)) = onUnlockCallback s"
proof (induction calls arbitrary: s)
  case Nil then show ?case by simp
next
  case (Cons tasks calls)
  obtain r s1 where p: "processTaskCompletion s tasks = (r, s1)"
    by (cases "processTaskCompletion s tasks")
  from Cons.IH[of s1] process_config[of s tasks] p show ?case
    by (simp add: processAll_Cons del: processAll.simps)
qed


lemma resetTracking_again:
  "fst (processAll (resetTracking (snd (processAll (resetTracking s) calls))) calls) =
     fst (processAll (resetTracking s) calls)"
proof (rule processAll_same_tracking)
  show "config (resetTracking (snd (processAll (resetTracking s) calls))) = config (resetTracking s)"
    using processAll_config[of "resetTracking s" calls] by (simp add: resetTracking_def)
  show "onUnlockCallback (resetTracking (snd (processAll (resetTracking s) calls))) =
          onUnlockCallback (resetTracking s)"
    using processAll_config[of "resetTracking s" calls] by (simp add: resetTracking_def)
  show "previousCompletionPercentage (resetTracking (snd (processAll (resetTracking s) calls))) =
          previousCompletionPercentage (resetTracking s)"
    by (simp add: resetTracking_def)
  show "notifiedThresholds (resetTracking (snd (processAll (resetTracking s) calls))) =
          notifiedThresholds (resetTracking s)"
    by (simp add: resetTracking_def)
qed

lemma fct_first:
  "percentage \<ge> u \<Longrightarrow> previous < u \<Longrightarrow> u \<notin> N \<Longrightarrow>
   \<forall>v\<in>set before. \<not> (percentage \<ge> v \<and> previous < v \<and> v \<notin> N) \<Longrightarrow>
   firstCrossedThreshold percentage previous N (before @ u # after) = Some u"
  by (induction before) auto

lemma process_fires:
  assumes "\<not> canUnlock (evaluateUnlockCondition tasks)"
    and "partialUnlockThresholds (config s) = before @ u # after"
    and "completionPercentage (evaluateUnlockCondition tasks) \<ge> u"
    and "previousCompletionPercentage s < u"
    and "u \<notin> notifiedThresholds s"
    and "\<forall>v\<in>set before.
           \<not> (completionPercentage (evaluateUnlockCondition tasks) \<ge> v \<and>
              previousCompletionPercentage s < v \<and> v \<notin> notifiedThresholds s)"
  shows "processTaskCompletion s tasks =
     (Some \<lparr>ntype = partial_unlock, message = ThresholdReached u,
            n_completedTasks = completedTasks (evaluateUnlockCondition tasks),
            n_totalTasks = totalTasks (evaluateUnlockCondition tasks), xpEarned = None\<rparr>,
      (invokeCallback
         \<lparr>ntype = partial_unlock, message = ThresholdReached u,
          n_completedTasks = completedTasks (evaluateUnlockCondition tasks),
          n_totalTasks = totalTasks (evaluateUnlockCondition tasks), xpEarned = None\<rparr>
         (s\<lparr>notifiedThresholds := insert u (notifiedThresholds s)\<rparr>))
        \<lparr>previousCompletionPercentage := completionPercentage (evaluateUnlockCondition tasks)\<rparr>)"
proof -
  from fct_first[OF assms(3,4,5,6), of after] assms(2)
  have "firstCrossedThreshold (completionPercentage (evaluateUnlockCondition tasks))
           (previousCompletionPercentage s) (notifiedThresholds s)
           (partialUnlockThresholds (config s)) = Some u" by simp
  then show ?thesis by (simp add: process_no_unlock_cases[OF assms(1)])
qed

text \<open>
  Claim C2. In any sequence of \<open>processTaskCompletion\<close> calls with no \<open>resetTracking\<close>
  between them (one tracking epoch, from whatever state it starts in) at most one
  \<open>partial_unlock\<close> notification is produced for a threshold \<open>t\<close>. A call produces a
  \<open>partial_unlock\<close> only for a configured threshold \<open>u\<close> with
  \<open>completionPercentage \<ge> u\<close>, \<open>previousCompletionPercentage < u\<close> and \<open>u\<close> not yet
  notified; \<open>u\<close> is the first such threshold in configured order, and it is the only one
  the call marks as notified. Conversely, when the list is not fully completed and some
  configured threshold meets the three conditions, the call does return the
  \<open>partial_unlock\<close> notification of the first such threshold in configured order, marks
  it and records the percentage. \<open>resetTracking\<close> sets \<open>previousCompletionPercentage\<close> to 0
  and empties \<open>notifiedThresholds\<close>: right after it a positive threshold that the
  percentage has reached fires whether or not it had fired before, if no earlier
  configured one does, and the same calls after a reset produce the same notifications
  again.
\<close>

theorem C2_threshold_once_per_epoch:
  "length (filter (isPartialFor t) (fst (processAll s calls))) \<le> 1
   \<and> (\<forall>n s'. processTaskCompletion s tasks = (Some n, s') \<and> ntype n = partial_unlock \<longrightarrow>
        (\<exists>u. message n = ThresholdReached u
           \<and> completionPercentage (evaluateUnlockCondition tasks) \<ge> u
           \<and> previousCompletionPercentage s < u
           \<and> u \<notin> notifiedThresholds s
           \<and> (\<exists>before after. partialUnlockThresholds (config s) = before @ u # after \<and>
                 (\<forall>v\<in>set before.
                    \<not> (completionPercentage (evaluateUnlockCondition tasks) \<ge> v \<and>
                       previousCompletionPercentage s < v \<and> v \<notin> notifiedThresholds s)))
           \<and> notifiedThresholds s' = insert u (notifiedThresholds s)))
   \<and> (\<forall>before u after.
         \<not> canUnlock (evaluateUnlockCondition tasks)
         \<and> partialUnlockThresholds (config s) = before @ u # after
         \<and> completionPercentage (evaluateUnlockCondition tasks) \<ge> u
         \<and> previousCompletionPercentage s < u
         \<and> u \<notin> notifiedThresholds s
         \<and> (\<forall>v\<in>set before.
               \<not> (completionPercentage (evaluateUnlockCondition tasks) \<ge> v \<and>
                  previousCompletionPercentage s < v \<and> v \<notin> notifiedThresholds s))
         \<longrightarrow>
         fst (processTaskCompletion s tasks) =
           Some \<lparr>ntype = partial_unlock, message = ThresholdReached u,
                 n_completedTasks = completedTasks (evaluateUnlockCondition tasks),
                 n_totalTasks = totalTasks (evaluateUnlockCondition tasks), xpEarned = None\<rparr>
         \<and> notifiedThresholds (snd (processTaskCompletion s tasks)) =
             insert u (notifiedThresholds s)
         \<and> previousCompletionPercentage (snd (processTaskCompletion s tasks)) =
             completionPercentage (evaluateUnlockCondition tasks))
   \<and> previousCompletionPercentage (resetTracking s) = 0
   \<and> notifiedThresholds (resetTracking s) = {}
   \<and> config (resetTracking s) = config s
   \<and> (\<forall>before u after.
         \<not> canUnlock (evaluateUnlockCondition tasks)
         \<and> partialUnlockThresholds (config s) = before @ u # after
         \<and> completionPercentage (evaluateUnlockCondition tasks) \<ge> u \<and> 0 < u
         \<and> (\<forall>v\<in>set before.
               \<not> (completionPercentage (evaluateUnlockCondition tasks) \<ge> v \<and> 0 < v))
         \<longrightarrow>
         fst (processTaskCompletion (resetTracking s) tasks) =
           Some \<lparr>ntype = partial_unlock, message = ThresholdReached u,
                 n_completedTasks = completedTasks (evaluateUnlockCondition tasks),
                 n_totalTasks = totalTasks (evaluateUnlockCondition tasks), xpEarned = None\<rparr>)
   \<and> fst (processAll (resetTracking (snd (processAll (resetTracking s) calls))) calls) =
       fst (processAll (resetTracking s) calls)"
proof -
  let ?pct = "completionPercentage (evaluateUnlockCondition tasks)"
  let ?N = "\<lambda>u. \<lparr>ntype = partial_unlock, message = ThresholdReached u,
                 n_completedTasks = completedTasks (evaluateUnlockCondition tasks),
                 n_totalTasks = totalTasks (evaluateUnlockCondition tasks), xpEarned = None\<rparr>"
  have a: "length (filter (isPartialFor t) (fst (processAll s calls))) \<le> 1"
    by (rule processAll_at_most_once)
  have b: "\<forall>n s'. processTaskCompletion s tasks = (Some n, s') \<and> ntype n = partial_unlock \<longrightarrow>
        (\<exists>u. message n = ThresholdReached u
           \<and> ?pct \<ge> u
           \<and> previousCompletionPercentage s < u
           \<and> u \<notin> notifiedThresholds s
           \<and> (\<exists>before after. partialUnlockThresholds (config s) = before @ u # after \<and>
                 (\<forall>v\<in>set before.
                    \<not> (?pct \<ge> v \<and>
                       previousCompletionPercentage s < v \<and> v \<notin> notifiedThresholds s)))
           \<and> notifiedThresholds s' = insert u (notifiedThresholds s))"
  proof (intro allI impI)
    fix n s'
    assume h: "processTaskCompletion s tasks = (Some n, s') \<and> ntype n = partial_unlock"
    with partial_fires[of s tasks n s'] obtain u where
      u: "message n = ThresholdReached u"
        "firstCrossedThreshold ?pct
           (previousCompletionPercentage s) (notifiedThresholds s)
           (partialUnlockThresholds (config s)) = Some u"
        "notifiedThresholds s' = insert u (notifiedThresholds s)"
      by blast
    from fct_Some[OF u(2)] u(1,3)
    show "\<exists>u. message n = ThresholdReached u
           \<and> ?pct \<ge> u
           \<and> previousCompletionPercentage s < u
           \<and> u \<notin> notifiedThresholds s
           \<and> (\<exists>before after. partialUnlockThresholds (config s) = before @ u # after \<and>
                 (\<forall>v\<in>set before.
                    \<not> (?pct \<ge> v \<and>
                       previousCompletionPercentage s < v \<and> v \<notin> notifiedThresholds s)))
           \<and> notifiedThresholds s' = insert u (notifiedThresholds s)"
      by blast
  qed
  have c: "\<forall>before u after.
         \<not> canUnlock (evaluateUnlockCondition tasks)
         \<and> partialUnlockThresholds (config s) = before @ u # after
         \<and> ?pct \<ge> u
         \<and> previousCompletionPercentage s < u
         \<and> u \<notin> notifiedThresholds s
         \<and> (\<forall>v\<in>set before.
               \<not> (?pct \<ge> v \<and>
                  previousCompletionPercentage s < v \<and> v \<notin> notifiedThresholds s))
         \<longrightarrow>
         fst (processTaskCompletion s tasks) = Some (?N u)
         \<and> notifiedThresholds (snd (processTaskCompletion s tasks)) =
             insert u (notifiedThresholds s)
         \<and> previousCompletionPercentage (snd (processTaskCompletion s tasks)) = ?pct"
  proof (intro allI impI)
    fix before u after
    assume h: "\<not> canUnlock (evaluateUnlockCondition tasks)
         \<and> partialUnlockThresholds (config s) = before @ u # after
         \<and> ?pct \<ge> u
         \<and> previousCompletionPercentage s < u
         \<and> u \<notin> notifiedThresholds s
         \<and> (\<forall>v\<in>set before.
               \<not> (?pct \<ge> v \<and>
                  previousCompletionPercentage s < v \<and> v \<notin> notifiedThresholds s))"
    then have p: "processTaskCompletion s tasks =
       (Some (?N u),
        (invokeCallback (?N u) (s\<lparr>notifiedThresholds := insert u (notifiedThresholds s)\<rparr>))
          \<lparr>previousCompletionPercentage := ?pct\<rparr>)"
      using process_fires[of tasks s before u after] by blast
    show "fst (processTaskCompletion s tasks) = Some (?N u)
         \<and> notifiedThresholds (snd (processTaskCompletion s tasks)) =
             insert u (notifiedThresholds s)
         \<and> previousCompletionPercentage (snd (processTaskCompletion s tasks)) = ?pct"
      unfolding p by (simp add: invokeCallback_def)
  qed
  have d: "previousCompletionPercentage (resetTracking s) = 0"
    "notifiedThresholds (resetTracking s) = {}" "config (resetTracking s) = config s"
    by (simp_all add: resetTracking_def)
  have e: "\<forall>before u after.
         \<not> canUnlock (evaluateUnlockCondition tasks)
         \<and> partialUnlockThresholds (config s) = before @ u # after
         \<and> ?pct \<ge> u \<and> 0 < u
         \<and> (\<forall>v\<in>set before. \<not> (?pct \<ge> v \<and> 0 < v))
         \<longrightarrow>
         fst (processTaskCompletion (resetTracking s) tasks) = Some (?N u)"
  proof (intro allI impI)
    fix before u after
    assume h: "\<not> canUnlock (evaluateUnlockCondition tasks)
         \<and> partialUnlockThresholds (config s) = before @ u # after
         \<and> ?pct \<ge> u \<and> 0 < u
         \<and> (\<forall>v\<in>set before. \<not> (?pct \<ge> v \<and> 0 < v))"
    have "processTaskCompletion (resetTracking s) tasks =
       (Some (?N u),
        (invokeCallback (?N u)
           ((resetTracking s)\<lparr>notifiedThresholds :=
               insert u (notifiedThresholds (resetTracking s))\<rparr>))
          \<lparr>previousCompletionPercentage := ?pct\<rparr>)"
    proof (rule process_fires[of tasks "resetTracking s" before u after])
      from h show "\<not> canUnlock (evaluateUnlockCondition tasks)" by blast
      from h d show "partialUnlockThresholds (config (resetTracking s)) = before @ u # after"
        by simp
      from h show "u \<le> ?pct" by blast
      from h d show "previousCompletionPercentage (resetTracking s) < u" by simp
      from d show "u \<notin> notifiedThresholds (resetTracking s)" by simp
      from h d show "\<forall>v\<in>set before.
           \<not> (?pct \<ge> v \<and> previousCompletionPercentage (resetTracking s) < v \<and>
              v \<notin> notifiedThresholds (resetTracking s))" by simp
    qed
    then show "fst (processTaskCompletion (resetTracking s) tasks) = Some (?N u)" by simp
  qed
  from a b c d e resetTracking_again[of s calls] show ?thesis by blast
qed


theorem C2_threshold_once_per_epoch_witness:
  "fst (processAll (newUnlockService DEFAULT_CONFIG)
     [[createTask 0 ''1'' PENDING MEDIUM, createTask 0 ''2'' PENDING MEDIUM,
       createTask 0 ''3'' PENDING MEDIUM, createTask 0 ''4'' PENDING MEDIUM],
      [createTask 0 ''1'' COMPLETED MEDIUM, createTask 0 ''2'' PENDING MEDIUM,
       createTask 0 ''3'' PENDING MEDIUM, createTask 0 ''4'' PENDING MEDIUM],
      [createTask 0 ''1'' COMPLETED MEDIUM, createTask 0 ''2'' COMPLETED MEDIUM,
       createTask 0 ''3'' PENDING MEDIUM, createTask 0 ''4'' PENDING MEDIUM],
      [createTask 0 ''1'' COMPLETED MEDIUM, createTask 0 ''2'' COMPLETED MEDIUM,
       createTask 0 ''3'' COMPLETED MEDIUM, createTask 0 ''4'' PENDING MEDIUM],
      [createTask 0 ''1'' COMPLETED MEDIUM, createTask 0 ''2'' COMPLETED MEDIUM,
       createTask 0 ''3'' COMPLETED MEDIUM, createTask 0 ''4'' PENDING MEDIUM]]) =
     [None,
      Some \<lparr>ntype = progress_update, message = TasksCompleted 1 4,
            n_completedTasks = 1, n_totalTasks = 4, xpEarned = None\<rparr>,
      Some \<lparr>ntype = partial_unlock, message = ThresholdReached 50,
            n_completedTasks = 2, n_totalTasks = 4, xpEarned = None\<rparr>,
      Some \<lparr>ntype = partial_unlock, message = ThresholdReached 75,
            n_completedTasks = 3, n_totalTasks = 4, xpEarned = None\<rparr>,
      None]
   \<and> fst (processTaskCompletion
          ((newUnlockService DEFAULT_CONFIG)
             \<lparr>previousCompletionPercentage := 50, notifiedThresholds := {50}\<rparr>)
          [createTask 0 ''1'' COMPLETED MEDIUM, createTask 0 ''2'' COMPLETED MEDIUM,
           createTask 0 ''3'' COMPLETED MEDIUM, createTask 0 ''4'' PENDING MEDIUM]) =
       Some \<lparr>ntype = partial_unlock, message = ThresholdReached 75,
             n_completedTasks = 3, n_totalTasks = 4, xpEarned = None\<rparr>
   \<and> fst (processTaskCompletion
          (resetTracking
             ((newUnlockService DEFAULT_CONFIG)
                \<lparr>previousCompletionPercentage := 75, notifiedThresholds := {75, 50}\<rparr>))
          [createTask 0 ''1'' COMPLETED MEDIUM, createTask 0 ''2'' COMPLETED MEDIUM,
           createTask 0 ''3'' PENDING MEDIUM, createTask 0 ''4'' PENDING MEDIUM]) =
       Some \<lparr>ntype = partial_unlock, message = ThresholdReached 50,
             n_completedTasks = 2, n_totalTasks = 4, xpEarned = None\<rparr>
   \<and> length (filter (isPartialFor 75)
        (fst (processAll (newUnlockService DEFAULT_CONFIG)
          [[createTask 0 ''1'' COMPLETED MEDIUM, createTask 0 ''2'' COMPLETED MEDIUM,
            createTask 0 ''3'' COMPLETED MEDIUM, createTask 0 ''4'' PENDING MEDIUM],
           [createTask 0 ''1'' COMPLETED MEDIUM, createTask 0 ''2'' COMPLETED MEDIUM,
            createTask 0 ''3'' COMPLETED MEDIUM, createTask 0 ''4'' PENDING MEDIUM]]))) \<le> 1"
proof -
  let ?T0 = "[createTask 0 ''1'' PENDING MEDIUM, createTask 0 ''2'' PENDING MEDIUM,
       createTask 0 ''3'' PENDING MEDIUM, createTask 0 ''4'' PENDING MEDIUM]"
  let ?T1 = "[createTask 0 ''1'' COMPLETED MEDIUM, createTask 0 ''2'' PENDING MEDIUM,
       createTask 0 ''3'' PENDING MEDIUM, createTask 0 ''4'' PENDING MEDIUM]"
  let ?T2 = "[createTask 0 ''1'' COMPLETED MEDIUM, createTask 0 ''2'' COMPLETED MEDIUM,
       createTask 0 ''3'' PENDING MEDIUM, createTask 0 ''4'' PENDING MEDIUM]"
  let ?T3 = "[createTask 0 ''1'' COMPLETED MEDIUM, createTask 0 ''2'' COMPLETED MEDIUM,
       createTask 0 ''3'' COMPLETED MEDIUM, createTask 0 ''4'' PENDING MEDIUM]"
  let ?s0 = "newUnlockService DEFAULT_CONFIG"
  let ?s1 = "?s0\<lparr>previousCompletionPercentage := 25\<rparr>"
  let ?s2 = "?s0\<lparr>previousCompletionPercentage := 50, notifiedThresholds := {50}\<rparr>"
  let ?s3 = "?s0\<lparr>previousCompletionPercentage := 75, notifiedThresholds := {75, 50}\<rparr>"
  let ?P = "\<lparr>ntype = progress_update, message = TasksCompleted 1 4,
            n_completedTasks = 1, n_totalTasks = 4, xpEarned = None\<rparr>"
  let ?N50 = "\<lparr>ntype = partial_unlock, message = ThresholdReached 50,
            n_completedTasks = 2, n_totalTasks = 4, xpEarned = None\<rparr>"
  let ?N75 = "\<lparr>ntype = partial_unlock, message = ThresholdReached 75,
            n_completedTasks = 3, n_totalTasks = 4, xpEarned = None\<rparr>"
  have ncu: "\<not> canUnlock (evaluateUnlockCondition ?T0)"
    "\<not> canUnlock (evaluateUnlockCondition ?T1)"
    "\<not> canUnlock (evaluateUnlockCondition ?T2)"
    "\<not> canUnlock (evaluateUnlockCondition ?T3)"
    by (simp_all add: canUnlock_iff createTask_def)
  have ev0: "evaluateUnlockCondition ?T0 =
      \<lparr>canUnlock = False, completedTasks = 0, totalTasks = 4, completionPercentage = 0,
       remainingTasks = 4\<rparr>"
    by (simp add: evaluateUnlockCondition_def createTask_def Let_def percentageOf_Suc)
  have ev1: "evaluateUnlockCondition ?T1 =
      \<lparr>canUnlock = False, completedTasks = 1, totalTasks = 4, completionPercentage = 25,
       remainingTasks = 3\<rparr>"
    by (simp add: evaluateUnlockCondition_def createTask_def Let_def percentageOf_Suc)
  have ev2: "evaluateUnlockCondition ?T2 =
      \<lparr>canUnlock = False, completedTasks = 2, totalTasks = 4, completionPercentage = 50,
       remainingTasks = 2\<rparr>"
    by (simp add: evaluateUnlockCondition_def createTask_def Let_def percentageOf_Suc)
  have ev3: "evaluateUnlockCondition ?T3 =
      \<lparr>canUnlock = False, completedTasks = 3, totalTasks = 4, completionPercentage = 75,
       remainingTasks = 1\<rparr>"
    by (simp add: evaluateUnlockCondition_def createTask_def Let_def percentageOf_Suc)
  have p0: "processTaskCompletion ?s0 ?T0 = (None, ?s0)"
    by (simp add: process_no_unlock_cases[OF ncu(1)] ev0 newUnlockService_def DEFAULT_CONFIG_def)
  have p1: "processTaskCompletion ?s0 ?T1 = (Some ?P, ?s1)"
    by (simp add: process_no_unlock_cases[OF ncu(2)] ev1 newUnlockService_def DEFAULT_CONFIG_def)
  have p2: "processTaskCompletion ?s1 ?T2 = (Some ?N50, ?s2)"
    by (simp add: process_no_unlock_cases[OF ncu(3)] ev2 newUnlockService_def DEFAULT_CONFIG_def
        invokeCallback_def)
  note A = C2_threshold_once_per_epoch[of 75 ?s2 "[?T3, ?T3]" ?T3]
  have h75: "\<not> canUnlock (evaluateUnlockCondition ?T3)
         \<and> partialUnlockThresholds (config ?s2) = [50] @ 75 # []
         \<and> completionPercentage (evaluateUnlockCondition ?T3) \<ge> 75
         \<and> previousCompletionPercentage ?s2 < 75
         \<and> 75 \<notin> notifiedThresholds ?s2
         \<and> (\<forall>v\<in>set [50].
               \<not> (completionPercentage (evaluateUnlockCondition ?T3) \<ge> v \<and>
                  previousCompletionPercentage ?s2 < v \<and> v \<notin> notifiedThresholds ?s2))"
    by (simp add: ncu ev3 newUnlockService_def DEFAULT_CONFIG_def)
  from A have "\<not> canUnlock (evaluateUnlockCondition ?T3)
         \<and> partialUnlockThresholds (config ?s2) = [50] @ 75 # []
         \<and> completionPercentage (evaluateUnlockCondition ?T3) \<ge> 75
         \<and> previousCompletionPercentage ?s2 < 75
         \<and> 75 \<notin> notifiedThresholds ?s2
         \<and> (\<forall>v\<in>set [50].
               \<not> (completionPercentage (evaluateUnlockCondition ?T3) \<ge> v \<and>
                  previousCompletionPercentage ?s2 < v \<and> v \<notin> notifiedThresholds ?s2))
         \<longrightarrow>
         fst (processTaskCompletion ?s2 ?T3) =
           Some \<lparr>ntype = partial_unlock, message = ThresholdReached 75,
                 n_completedTasks = completedTasks (evaluateUnlockCondition ?T3),
                 n_totalTasks = totalTasks (evaluateUnlockCondition ?T3), xpEarned = None\<rparr>
         \<and> notifiedThresholds (snd (processTaskCompletion ?s2 ?T3)) =
             insert 75 (notifiedThresholds ?s2)
         \<and> previousCompletionPercentage (snd (processTaskCompletion ?s2 ?T3)) =
             completionPercentage (evaluateUnlockCondition ?T3)"
    by blast
  with h75 have f75: "fst (processTaskCompletion ?s2 ?T3) =
           Some \<lparr>ntype = partial_unlock, message = ThresholdReached 75,
                 n_completedTasks = completedTasks (evaluateUnlockCondition ?T3),
                 n_totalTasks = totalTasks (evaluateUnlockCondition ?T3), xpEarned = None\<rparr>"
    by blast
  then have fire75: "fst (processTaskCompletion ?s2 ?T3) = Some ?N75"
    by (simp add: ev3)
  have p3: "processTaskCompletion ?s2 ?T3 = (Some ?N75, ?s3)"
    by (simp add: process_no_unlock_cases[OF ncu(4)] ev3 newUnlockService_def DEFAULT_CONFIG_def
        invokeCallback_def)
  have p4: "processTaskCompletion ?s3 ?T3 = (None, ?s3)"
    by (simp add: process_no_unlock_cases[OF ncu(4)] ev3 newUnlockService_def DEFAULT_CONFIG_def)
  have run: "fst (processAll ?s0 [?T0, ?T1, ?T2, ?T3, ?T3]) =
      [None, Some ?P, Some ?N50, Some ?N75, None]"
    by (simp add: p0 p1 p2 p3 p4 del: processTaskCompletion_def)
  note B = C2_threshold_once_per_epoch[of 50 ?s3 "[]" ?T2]
  have h50: "\<not> canUnlock (evaluateUnlockCondition ?T2)
         \<and> partialUnlockThresholds (config ?s3) = [] @ 50 # [75]
         \<and> completionPercentage (evaluateUnlockCondition ?T2) \<ge> 50 \<and> (0::int) < 50
         \<and> (\<forall>v\<in>set [].
               \<not> (completionPercentage (evaluateUnlockCondition ?T2) \<ge> v \<and> 0 < v))"
    by (simp add: ncu ev2 newUnlockService_def DEFAULT_CONFIG_def)
  from B have "\<not> canUnlock (evaluateUnlockCondition ?T2)
         \<and> partialUnlockThresholds (config ?s3) = [] @ 50 # [75]
         \<and> completionPercentage (evaluateUnlockCondition ?T2) \<ge> 50 \<and> (0::int) < 50
         \<and> (\<forall>v\<in>set [].
               \<not> (completionPercentage (evaluateUnlockCondition ?T2) \<ge> v \<and> 0 < v))
         \<longrightarrow>
         fst (processTaskCompletion (resetTracking ?s3) ?T2) =
           Some \<lparr>ntype = partial_unlock, message = ThresholdReached 50,
                 n_completedTasks = completedTasks (evaluateUnlockCondition ?T2),
                 n_totalTasks = totalTasks (evaluateUnlockCondition ?T2), xpEarned = None\<rparr>"
    by blast
  with h50 have "fst (processTaskCompletion (resetTracking ?s3) ?T2) =
           Some \<lparr>ntype = partial_unlock, message = ThresholdReached 50,
                 n_completedTasks = completedTasks (evaluateUnlockCondition ?T2),
                 n_totalTasks = totalTasks (evaluateUnlockCondition ?T2), xpEarned = None\<rparr>"
    by blast
  then have again: "fst (processTaskCompletion (resetTracking ?s3) ?T2) = Some ?N50"
    by (simp add: ev2)
  note C = C2_threshold_once_per_epoch[of 75 ?s0 "[?T3, ?T3]" ?T3]
  from C have once1:
    "length (filter (isPartialFor 75) (fst (processAll ?s0 [?T3, ?T3]))) \<le> 1" by blast
  from run fire75 again once1 show ?thesis by blast
qed

lemma detectInner_eq:
  "detectInner lower p apps detected =
     (if \<exists>a\<in>set apps. executableName p = lower (app_executableName a)
      then detected @ [p] else detected)"
  by (induction apps) auto

lemma detectOuter_eq:
  "detectOuter lower ps apps detected =
     detected @ filter (\<lambda>p. \<exists>a\<in>set apps. executableName p = lower (app_executableName a)) ps"
  by (induction ps arbitrary: detected) (simp_all add: detectInner_eq)

lemma parseLines_eq:
  "parseLines lower lines processes =
     processes @ map (toProcessInfo lower) (List.map_filter line_match lines)"
  by (induction lines arbitrary: processes) (simp_all add: map_filter_simps split: option.splits)

lemma getRunningProcesses_eq:
  "getRunningProcesses lower out = map (toProcessInfo lower) (scanMatches out)"
  by (simp add: getRunningProcesses_def scanMatches_def parseLines_eq split: tasklist_result.splits)

lemma executableName_toProcessInfo: "executableName (toProcessInfo lower m) = lower (fst m)"
  by (cases m) (simp add: toProcessInfo_def)

lemma detect_as_filter:
  "detectRestrictedProcesses lower out apps =
     filter (\<lambda>p. \<exists>a\<in>set apps. isEnabled a \<and> executableName p = lower (app_executableName a))
       (getRunningProcesses lower out)"
  by (simp add: detectRestrictedProcesses_def Let_def detectOuter_eq Bex_def)

lemma detect_by_names:
  "detectRestrictedProcesses lower out apps =
     filter (\<lambda>p. executableName p \<in>
                (\<lambda>a. lower (app_executableName a)) ` set (filter isEnabled apps))
       (getRunningProcesses lower out)"
  unfolding detect_as_filter by (rule filter_cong[OF refl]) auto

text \<open>
  Claim C6. Whatever the case mapping \<open>lower\<close> of the runtime, the scan and the
  restriction list: \<open>detectRestrictedProcesses\<close> returns the running processes whose
  executable name, as the scan printed it, equals without regard to case (equal after
  \<open>lower\<close>) the \<open>executableName\<close> of some entry with \<open>isEnabled = true\<close>; each such process
  stands once, at its own place, in scan order, whatever the number or order of the
  entries it matches. The two loops do the same on any list of running processes. The
  result is a function of the matches of the scan and of the set of lower-cased names of
  the enabled entries, and of nothing else.
\<close>

theorem C6_matching:
  "detectRestrictedProcesses lower out apps =
     map (toProcessInfo lower)
       (filter (\<lambda>m. \<exists>a\<in>set apps. isEnabled a \<and> lower (fst m) = lower (app_executableName a))
          (scanMatches out))
   \<and> getRunningProcesses lower out = map (toProcessInfo lower) (scanMatches out)
   \<and> detectRestrictedProcesses lower out apps =
       filter (\<lambda>p. \<exists>a\<in>set apps. isEnabled a \<and> executableName p = lower (app_executableName a))
         (getRunningProcesses lower out)
   \<and> subseq (detectRestrictedProcesses lower out apps) (getRunningProcesses lower out)
   \<and> detectOuter lower running (filter isEnabled apps) [] =
       filter (\<lambda>p. \<exists>a\<in>set apps. isEnabled a \<and> executableName p = lower (app_executableName a))
         running
   \<and> (scanMatches out = scanMatches out2
        \<and> (\<lambda>a. lower (app_executableName a)) ` set (filter isEnabled apps) =
            (\<lambda>a. lower (app_executableName a)) ` set (filter isEnabled apps2)
        \<longrightarrow> detectRestrictedProcesses lower out apps = detectRestrictedProcesses lower out2 apps2)"
proof -
  have a: "detectRestrictedProcesses lower out apps =
     map (toProcessInfo lower)
       (filter (\<lambda>m. \<exists>a\<in>set apps. isEnabled a \<and> lower (fst m) = lower (app_executableName a))
          (scanMatches out))"
    unfolding detect_as_filter getRunningProcesses_eq
    by (simp add: filter_map comp_def executableName_toProcessInfo)
  have c: "subseq (detectRestrictedProcesses lower out apps) (getRunningProcesses lower out)"
    unfolding detect_as_filter by simp
  have d: "detectOuter lower running (filter isEnabled apps) [] =
       filter (\<lambda>p. \<exists>a\<in>set apps. isEnabled a \<and> executableName p = lower (app_executableName a))
         running"
    by (simp add: detectOuter_eq Bex_def)
  have e: "scanMatches out = scanMatches out2
        \<and> (\<lambda>a. lower (app_executableName a)) ` set (filter isEnabled apps) =
            (\<lambda>a. lower (app_executableName a)) ` set (filter isEnabled apps2)
        \<longrightarrow> detectRestrictedProcesses lower out apps = detectRestrictedProcesses lower out2 apps2"
    by (simp add: detect_by_names getRunningProcesses_eq)
  from a c d e getRunningProcesses_eq[of lower out] detect_as_filter[of lower out apps]
  show ?thesis by blast
qed


theorem C6_matching_witness:
  "scanMatches (TasklistOutput sampleTasklist) = [(''Steam.EXE'', ''1234''), (''notepad.exe'', ''77'')]
   \<and> getRunningProcesses asciiLowerCase (TasklistOutput sampleTasklist) =
       [\<lparr>pid = 1234, name = ''Steam.EXE'', executableName = ''steam.exe''\<rparr>,
        \<lparr>pid = 77, name = ''notepad'', executableName = ''notepad.exe''\<rparr>]
   \<and> detectRestrictedProcesses asciiLowerCase (TasklistOutput sampleTasklist)
        sampleRestrictedApps =
       [\<lparr>pid = 1234, name = ''Steam.EXE'', executableName = ''steam.exe''\<rparr>]
   \<and> detectRestrictedProcesses asciiLowerCase (TasklistOutput sampleTasklist)
        [\<lparr>app_id = ''steam'', app_name = ''Steam'', app_executableName = ''steam.exe'',
          app_path = None, isEnabled = True, isPreset = True\<rparr>] =
       [\<lparr>pid = 1234, name = ''Steam.EXE'', executableName = ''steam.exe''\<rparr>]"
proof -
  let ?out = "TasklistOutput sampleTasklist"
  let ?one = "[\<lparr>app_id = ''steam'', app_name = ''Steam'', app_executableName = ''steam.exe'',
          app_path = None, isEnabled = True, isPreset = True\<rparr>]"
  have sm: "scanMatches ?out = [(''Steam.EXE'', ''1234''), (''notepad.exe'', ''77'')]"
    by code_simp
  have low: "asciiLowerCase ''steam.exe'' = ''steam.exe''"
    "asciiLowerCase ''STEAM.exe'' = ''steam.exe''"
    "asciiLowerCase ''Steam.EXE'' = ''steam.exe''"
    "asciiLowerCase ''notepad.exe'' = ''notepad.exe''"
    by code_simp+
  have info: "toProcessInfo asciiLowerCase (''Steam.EXE'', ''1234'') =
      \<lparr>pid = 1234, name = ''Steam.EXE'', executableName = ''steam.exe''\<rparr>"
    "toProcessInfo asciiLowerCase (''notepad.exe'', ''77'') =
      \<lparr>pid = 77, name = ''notepad'', executableName = ''notepad.exe''\<rparr>"
    by code_simp+
  note T = C6_matching[of asciiLowerCase ?out sampleRestrictedApps "[]" ?out ?one]
  from T have "getRunningProcesses asciiLowerCase ?out =
      map (toProcessInfo asciiLowerCase) (scanMatches ?out)" by blast
  then have run: "getRunningProcesses asciiLowerCase ?out =
       [\<lparr>pid = 1234, name = ''Steam.EXE'', executableName = ''steam.exe''\<rparr>,
        \<lparr>pid = 77, name = ''notepad'', executableName = ''notepad.exe''\<rparr>]"
    by (simp add: sm info)
  from T have "detectRestrictedProcesses asciiLowerCase ?out sampleRestrictedApps =
     map (toProcessInfo asciiLowerCase)
       (filter (\<lambda>m. \<exists>a\<in>set sampleRestrictedApps. isEnabled a \<and>
                  asciiLowerCase (fst m) = asciiLowerCase (app_executableName a))
          (scanMatches ?out))" by blast
  then have d1: "detectRestrictedProcesses asciiLowerCase ?out sampleRestrictedApps =
       [\<lparr>pid = 1234, name = ''Steam.EXE'', executableName = ''steam.exe''\<rparr>]"
    by (simp add: sm sampleRestrictedApps_def low info)
  have names: "(\<lambda>a. asciiLowerCase (app_executableName a)) ` set (filter isEnabled sampleRestrictedApps) =
      (\<lambda>a. asciiLowerCase (app_executableName a)) ` set (filter isEnabled ?one)"
    by (simp add: sampleRestrictedApps_def low)
  from T names have "detectRestrictedProcesses asciiLowerCase ?out sampleRestrictedApps =
      detectRestrictedProcesses asciiLowerCase ?out ?one" by blast
  with d1 have d2: "detectRestrictedProcesses asciiLowerCase ?out ?one =
       [\<lparr>pid = 1234, name = ''Steam.EXE'', executableName = ''steam.exe''\<rparr>]"
    by simp
  from sm run d1 d2 show ?thesis by blast
qed

lemma forceKill_issued: "snd (forceKill sys issued p nm) = issued @ [Taskkill p True]"
  by (simp add: forceKill_def split: exec_result.splits)

lemma forceKill_success:
  "success (fst (forceKill sys issued p nm)) = (sys issued (Taskkill p True) = Resolved)"
  by (simp add: forceKill_def split: exec_result.splits)

lemma forceKill_ids:
  "tr_pid (fst (forceKill sys issued p nm)) = p \<and> processName (fst (forceKill sys issued p nm)) = nm"
  by (simp add: forceKill_def split: exec_result.splits)

text \<open>
  Claim C4. With \<open>gracefulTerminationFirst\<close> set, a graceful request that fails is
  followed by exactly one forced request, and the result is a success exactly when the
  forced request succeeded; a graceful request that succeeds is the only request issued
  and the result is a success; with \<open>gracefulTerminationFirst\<close> unset only the forced
  request is issued. The result carries the pid and the process name given.
\<close>

theorem C4_termination_escalation:
  "(gracefulTerminationFirst cfg \<and> sys [] (Taskkill p False) \<noteq> Resolved \<longrightarrow>
      snd (terminateProcess cfg sys p nm) = [Taskkill p False, Taskkill p True]
      \<and> success (fst (terminateProcess cfg sys p nm)) =
          (sys [Taskkill p False] (Taskkill p True) = Resolved))
   \<and> (gracefulTerminationFirst cfg \<and> sys [] (Taskkill p False) = Resolved \<longrightarrow>
      snd (terminateProcess cfg sys p nm) = [Taskkill p False]
      \<and> success (fst (terminateProcess cfg sys p nm)))
   \<and> (\<not> gracefulTerminationFirst cfg \<longrightarrow>
      snd (terminateProcess cfg sys p nm) = [Taskkill p True]
      \<and> success (fst (terminateProcess cfg sys p nm)) = (sys [] (Taskkill p True) = Resolved))
   \<and> tr_pid (fst (terminateProcess cfg sys p nm)) = p
   \<and> processName (fst (terminateProcess cfg sys p nm)) = nm"
  by (auto simp: terminateProcess_def forceKill_issued forceKill_success forceKill_ids
      split: exec_result.splits)


theorem C4_termination_escalation_witness:
  "gracefulTerminationFirst DEFAULT_MONITOR_CONFIG
   \<and> gracefulDenied [] (Taskkill 1234 False) \<noteq> Resolved
   \<and> terminateProcess DEFAULT_MONITOR_CONFIG gracefulDenied 1234 ''steam'' =
       (\<lparr>success = True, tr_pid = 1234, processName = ''steam'', error = None\<rparr>,
        [Taskkill 1234 False, Taskkill 1234 True])
   \<and> allGranted [] (Taskkill 1234 False) = Resolved
   \<and> snd (terminateProcess DEFAULT_MONITOR_CONFIG allGranted 1234 ''steam'') = [Taskkill 1234 False]
   \<and> success (fst (terminateProcess DEFAULT_MONITOR_CONFIG allGranted 1234 ''steam''))
   \<and> \<not> gracefulTerminationFirst (DEFAULT_MONITOR_CONFIG\<lparr>gracefulTerminationFirst := False\<rparr>)
   \<and> snd (terminateProcess (DEFAULT_MONITOR_CONFIG\<lparr>gracefulTerminationFirst := False\<rparr>)
             processGone 1234 ''steam'') = [Taskkill 1234 True]
   \<and> \<not> success (fst (terminateProcess (DEFAULT_MONITOR_CONFIG\<lparr>gracefulTerminationFirst := False\<rparr>)
             processGone 1234 ''steam''))"
proof -
  have g: "gracefulTerminationFirst DEFAULT_MONITOR_CONFIG"
    by (simp add: DEFAULT_MONITOR_CONFIG_def)
  have d: "gracefulDenied [] (Taskkill 1234 False) \<noteq> Resolved"
    "gracefulDenied [Taskkill 1234 False] (Taskkill 1234 True) = Resolved"
    by (simp_all add: gracefulDenied_def)
  have a: "allGranted [] (Taskkill 1234 False) = Resolved" by (simp add: allGranted_def)
  have n: "\<not> gracefulTerminationFirst (DEFAULT_MONITOR_CONFIG\<lparr>gracefulTerminationFirst := False\<rparr>)"
    by simp
  have pg: "processGone [] (Taskkill 1234 True) \<noteq> Resolved" by (simp add: processGone_def)
  have full: "terminateProcess DEFAULT_MONITOR_CONFIG gracefulDenied 1234 ''steam'' =
       (\<lparr>success = True, tr_pid = 1234, processName = ''steam'', error = None\<rparr>,
        [Taskkill 1234 False, Taskkill 1234 True])"
    by (simp add: terminateProcess_def forceKill_def gracefulDenied_def DEFAULT_MONITOR_CONFIG_def)
  from C4_termination_escalation[of DEFAULT_MONITOR_CONFIG allGranted 1234 "''steam''"] g a
  have t2: "snd (terminateProcess DEFAULT_MONITOR_CONFIG allGranted 1234 ''steam'') = [Taskkill 1234 False]"
    "success (fst (terminateProcess DEFAULT_MONITOR_CONFIG allGranted 1234 ''steam''))"
    by blast+
  from C4_termination_escalation[of "DEFAULT_MONITOR_CONFIG\<lparr>gracefulTerminationFirst := False\<rparr>"
      processGone 1234 "''steam''"] n pg
  have t3: "snd (terminateProcess (DEFAULT_MONITOR_CONFIG\<lparr>gracefulTerminationFirst := False\<rparr>)
             processGone 1234 ''steam'') = [Taskkill 1234 True]"
    "\<not> success (fst (terminateProcess (DEFAULT_MONITOR_CONFIG\<lparr>gracefulTerminationFirst := False\<rparr>)
             processGone 1234 ''steam''))"
    by blast+
  from C4_termination_escalation[of DEFAULT_MONITOR_CONFIG gracefulDenied 1234 "''steam''"] g d
  have t1: "snd (terminateProcess DEFAULT_MONITOR_CONFIG gracefulDenied 1234 ''steam'') =
      [Taskkill 1234 False, Taskkill 1234 True]"
    "success (fst (terminateProcess DEFAULT_MONITOR_CONFIG gracefulDenied 1234 ''steam''))"
    by blast+
  from g d(1) full a t2 n t3 show ?thesis by blast
qed

text \<open>
  A target that is gone: both requests are rejected, and the result is a failure.
\<close>

theorem C5_vanished_process_counterexample:
  "processGone [] (Taskkill 1234 False) \<noteq> Resolved
   \<and> processGone [Taskkill 1234 False] (Taskkill 1234 True) \<noteq> Resolved
   \<and> terminateProcess DEFAULT_MONITOR_CONFIG processGone 1234 ''steam'' =
       (\<lparr>success = False, tr_pid = 1234, processName = ''steam'',
         error = Some ''Process not found''\<rparr>,
        [Taskkill 1234 False, Taskkill 1234 True])"
  by (simp add: terminateProcess_def forceKill_def processGone_def DEFAULT_MONITOR_CONFIG_def
      errorMessageOf_def)

text \<open>
  Claim C5, as amended. When the graceful and the forced request both fail, as they do
  against a process that no longer exists, \<open>terminateProcess\<close> returns a result with
  \<open>success = false\<close> and the error message of the forced request.
\<close>

theorem C5_both_requests_fail:
  assumes "sys [] (Taskkill p False) \<noteq> Resolved"
    and "sys [Taskkill p False] (Taskkill p True) \<noteq> Resolved"
    and "gracefulTerminationFirst cfg"
  shows "terminateProcess cfg sys p nm =
           (\<lparr>success = False, tr_pid = p, processName = nm,
             error = Some (errorMessageOf (sys [Taskkill p False] (Taskkill p True)))\<rparr>,
            [Taskkill p False, Taskkill p True])"
  using assms
  by (auto simp: terminateProcess_def forceKill_def split: exec_result.splits)

theorem C5_both_requests_fail_witness:
  "processGone [] (Taskkill 1234 False) \<noteq> Resolved
   \<and> processGone [Taskkill 1234 False] (Taskkill 1234 True) \<noteq> Resolved
   \<and> gracefulTerminationFirst DEFAULT_MONITOR_CONFIG
   \<and> success (fst (terminateProcess DEFAULT_MONITOR_CONFIG processGone 1234 ''steam'')) = False
   \<and> error (fst (terminateProcess DEFAULT_MONITOR_CONFIG processGone 1234 ''steam'')) =
       Some ''Process not found''"
proof -
  have h1: "processGone [] (Taskkill 1234 False) \<noteq> Resolved"
    and h2: "processGone [Taskkill 1234 False] (Taskkill 1234 True) \<noteq> Resolved"
    by (simp_all add: processGone_def)
  have h3: "gracefulTerminationFirst DEFAULT_MONITOR_CONFIG"
    by (simp add: DEFAULT_MONITOR_CONFIG_def)
  have m: "errorMessageOf (processGone [Taskkill 1234 False] (Taskkill 1234 True)) = ''Process not found''"
    by (simp add: processGone_def errorMessageOf_def)
  from C5_both_requests_fail[OF h1 h2 h3, of "''steam''"] m h1 h2 h3 show ?thesis by simp
qed

lemma stopFocusMode_active:
  "startedAt s = Some started \<Longrightarrow> started \<noteq> 0 \<Longrightarrow>
   stopFocusMode wasNatural completed now newId s =
     s\<lparr>isActive := False, startedAt := None, currentSessionTime := 0,
       totalFocusTime := totalFocusTime s + (now - started),
       sessions := sessions s @
         [\<lparr>session_id = newId, session_startedAt = started, endedAt = now,
           duration = now - started, tasksCompleted = completed,
           wasUnlockedNaturally = wasNatural\<rparr>]\<rparr>"
  by (simp add: stopFocusMode_def truthy_def Let_def)

lemma stopFocusMode_inactive:
  "\<not> truthy (startedAt s) \<Longrightarrow> stopFocusMode wasNatural completed now newId s = s"
  by (simp add: stopFocusMode_def truthy_def split: option.splits)

lemma truthy_iff: "truthy x = (\<exists>v. x = Some v \<and> v \<noteq> 0)"
  by (simp add: truthy_def split: option.splits)

text \<open>
  Claim C8. With \<open>startedAt\<close> set (a timestamp other than 0, which the test
  \<open>!startedAt\<close> takes for unset), \<open>stopFocusMode\<close> appends exactly one \<open>FocusSession\<close>
  with \<open>endedAt = now\<close>, \<open>duration = endedAt - startedAt\<close>, the given \<open>tasksCompleted\<close>
  and \<open>wasUnlockedNaturally = wasNatural\<close>, adds the duration to \<open>totalFocusTime\<close>, and
  resets \<open>isActive\<close>, \<open>startedAt\<close> and \<open>currentSessionTime\<close>; nothing else changes. With
  \<open>startedAt\<close> unset the call leaves the whole state as it is.
\<close>

theorem C8_stop_records_session:
  "(\<forall>started. startedAt s = Some started \<and> started \<noteq> 0 \<longrightarrow>
      stopFocusMode wasNatural completed now newId s =
        s\<lparr>isActive := False, startedAt := None, currentSessionTime := 0,
          totalFocusTime := totalFocusTime s + (now - started),
          sessions := sessions s @
            [\<lparr>session_id = newId, session_startedAt = started, endedAt = now,
              duration = now - started, tasksCompleted = completed,
              wasUnlockedNaturally = wasNatural\<rparr>]\<rparr>)
   \<and> (startedAt s = None \<or> startedAt s = Some 0 \<longrightarrow>
        stopFocusMode wasNatural completed now newId s = s)"
proof -
  have "startedAt s = None \<or> startedAt s = Some 0 \<longrightarrow> \<not> truthy (startedAt s)"
    by (auto simp: truthy_def)
  with stopFocusMode_active[of s] stopFocusMode_inactive[of s] show ?thesis by blast
qed

theorem C8_stop_records_session_witness:
  "startedAt (startFocusMode 1000 initialState) = Some 1000
   \<and> (1000::int) \<noteq> 0
   \<and> sessions (stopFocusMode True 3 61000 ''a'' (startFocusMode 1000 initialState)) =
       [\<lparr>session_id = ''a'', session_startedAt = 1000, endedAt = 61000, duration = 60000,
         tasksCompleted = 3, wasUnlockedNaturally = True\<rparr>]
   \<and> totalFocusTime (stopFocusMode True 3 61000 ''a'' (startFocusMode 1000 initialState)) = 60000
   \<and> isActive (stopFocusMode True 3 61000 ''a'' (startFocusMode 1000 initialState)) = False
   \<and> startedAt (stopFocusMode True 3 61000 ''a'' (startFocusMode 1000 initialState)) = None
   \<and> currentSessionTime (stopFocusMode True 3 61000 ''a'' (startFocusMode 1000 initialState)) = 0
   \<and> startedAt initialState = None
   \<and> stopFocusMode True 3 61000 ''a'' initialState = initialState"
proof -
  let ?s = "startFocusMode 1000 initialState"
  have h: "startedAt ?s = Some 1000 \<and> (1000::int) \<noteq> 0"
    by (simp add: startFocusMode_def)
  have i: "startedAt initialState = None" by (simp add: initialState_def)
  from C8_stop_records_session[of ?s True 3 61000 "''a''"] h
  have a: "stopFocusMode True 3 61000 ''a'' ?s =
        ?s\<lparr>isActive := False, startedAt := None, currentSessionTime := 0,
          totalFocusTime := totalFocusTime ?s + (61000 - 1000),
          sessions := sessions ?s @
            [\<lparr>session_id = ''a'', session_startedAt = 1000, endedAt = 61000,
              duration = 61000 - 1000, tasksCompleted = 3,
              wasUnlockedNaturally = True\<rparr>]\<rparr>" by blast
  from C8_stop_records_session[of initialState True 3 61000 "''a''"] i
  have b: "stopFocusMode True 3 61000 ''a'' initialState = initialState" by blast
  have c: "sessions ?s = []" "totalFocusTime ?s = 0"
    by (simp_all add: startFocusMode_def initialState_def)
  from h i b show ?thesis by (simp add: a c)
qed

lemma stopFocusMode_invariant:
  "lifecycleInvariant s \<Longrightarrow> lifecycleInvariant (stopFocusMode wasNatural completed now newId s)"
  by (auto simp: stopFocusMode_def lifecycleInvariant_def Let_def split: option.splits)

lemma stopFocusMode_sessions:
  "sessions (stopFocusMode wasNatural completed now newId s) = sessions s \<or>
   (\<exists>r. sessions (stopFocusMode wasNatural completed now newId s) = sessions s @ [r])"
  by (auto simp: stopFocusMode_def Let_def split: option.splits)

lemma perform_invariant: "lifecycleInvariant s \<Longrightarrow> lifecycleInvariant (perform a s)"
proof (cases a)
  case (StopFocusMode w c n i)
  assume "lifecycleInvariant s"
  with StopFocusMode show ?thesis by (simp add: stopFocusMode_invariant)
next
  case (EmergencyUnlock nc ns i nr)
  assume inv: "lifecycleInvariant s"
  have "lifecycleInvariant ((stopFocusMode False 0 ns i s)\<lparr>lastEmergencyUnlock := Some nr\<rparr>)"
    using stopFocusMode_invariant[OF inv, of False 0 ns i]
    by (simp add: lifecycleInvariant_def)
  with inv EmergencyUnlock show ?thesis by (simp add: emergencyUnlock_def)
qed (auto simp: lifecycleInvariant_def startFocusMode_def updateSessionTime_def
      addRestrictedApp_def removeRestrictedApp_def toggleRestrictedApp_def
      updateRestrictedApp_def resetFocusMode_def split: option.splits)

lemma perform_sessions:
  "sessions (perform a s) = sessions s \<or> (\<exists>r. sessions (perform a s) = sessions s @ [r])"
proof (cases a)
  case (StopFocusMode w c n i)
  with stopFocusMode_sessions[of w c n i s] show ?thesis by simp
next
  case (EmergencyUnlock nc ns i nr)
  with stopFocusMode_sessions[of False 0 ns i s] show ?thesis
    by (auto simp: emergencyUnlock_def)
qed (auto simp: startFocusMode_def updateSessionTime_def
      addRestrictedApp_def removeRestrictedApp_def toggleRestrictedApp_def
      updateRestrictedApp_def resetFocusMode_def split: option.splits)

lemma perform_prefix: "prefix (sessions s) (sessions (perform a s))"
  using perform_sessions[of a s] by auto

lemma run_invariant: "lifecycleInvariant s \<Longrightarrow> lifecycleInvariant (run acts s)"
  by (induction acts arbitrary: s) (simp_all add: perform_invariant)

lemma run_prefix: "prefix (sessions s) (sessions (run acts s))"
proof (induction acts arbitrary: s)
  case Nil show ?case by simp
next
  case (Cons a acts)
  have "prefix (sessions s) (sessions (perform a s))" by (rule perform_prefix)
  moreover have "prefix (sessions (perform a s)) (sessions (run acts (perform a s)))"
    by (rule Cons.IH)
  ultimately show ?case by (simp add: prefix_order.order_trans)
qed

lemma run_append: "run (acts @ later) s = run later (run acts s)"
  by (induction acts arbitrary: s) simp_all

lemma initial_invariant: "lifecycleInvariant initialState"
  by (simp add: lifecycleInvariant_def initialState_def)

text \<open>
  Claim C9. After any sequence of store operations from the initial state, whatever the
  clock readings: \<open>isActive = false\<close> implies \<open>startedAt = null\<close> and
  \<open>currentSessionTime = 0\<close>; \<open>isActive = true\<close> implies \<open>startedAt \<noteq> null\<close>; the session
  history is a prefix of the history after any further operations, and one operation
  leaves it as it is or appends one record.
\<close>

theorem C9_lifecycle_invariants:
  "lifecycleInvariant (run acts initialState)
   \<and> (\<not> isActive (run acts initialState) \<longrightarrow>
        startedAt (run acts initialState) = None \<and> currentSessionTime (run acts initialState) = 0)
   \<and> (isActive (run acts initialState) \<longrightarrow> startedAt (run acts initialState) \<noteq> None)
   \<and> prefix (sessions (run acts initialState)) (sessions (run (acts @ later) initialState))
   \<and> (sessions (perform a (run acts initialState)) = sessions (run acts initialState) \<or>
       (\<exists>r. sessions (perform a (run acts initialState)) = sessions (run acts initialState) @ [r]))"
proof -
  have i: "lifecycleInvariant (run acts initialState)"
    by (rule run_invariant[OF initial_invariant])
  have p: "prefix (sessions (run acts initialState)) (sessions (run (acts @ later) initialState))"
    by (simp add: run_append run_prefix)
  from i p perform_sessions[of a "run acts initialState"] show ?thesis
    by (simp add: lifecycleInvariant_def)
qed


theorem C9_lifecycle_invariants_witness:
  "\<not> isActive (run [StartFocusMode 1000, StopFocusMode True 2 5000 ''a''] initialState)
   \<and> startedAt (run [StartFocusMode 1000, StopFocusMode True 2 5000 ''a''] initialState) = None
   \<and> currentSessionTime (run [StartFocusMode 1000, StopFocusMode True 2 5000 ''a''] initialState) = 0
   \<and> isActive (run [StartFocusMode 1000, UpdateSessionTime 1500] initialState)
   \<and> startedAt (run [StartFocusMode 1000, UpdateSessionTime 1500] initialState) \<noteq> None
   \<and> prefix (sessions (run [StartFocusMode 1000, StopFocusMode True 2 5000 ''a''] initialState))
        (sessions (run ([StartFocusMode 1000, StopFocusMode True 2 5000 ''a'']
                         @ [StartFocusMode 6000, EmergencyUnlock 7000 7001 ''b'' 7002])
                     initialState))"
proof -
  let ?a1 = "[StartFocusMode 1000, StopFocusMode True 2 5000 ''a'']"
  let ?a2 = "[StartFocusMode 1000, UpdateSessionTime 1500]"
  let ?l = "[StartFocusMode 6000, EmergencyUnlock 7000 7001 ''b'' 7002]"
  have n1: "\<not> isActive (run ?a1 initialState)"
    by (simp add: startFocusMode_def stopFocusMode_def truthy_def initialState_def Let_def)
  have n2: "isActive (run ?a2 initialState)"
    by (simp add: startFocusMode_def updateSessionTime_def truthy_def initialState_def)
  note T1 = C9_lifecycle_invariants[of ?a1 ?l ResetFocusMode]
  note T2 = C9_lifecycle_invariants[of ?a2 ?l ResetFocusMode]
  from T1 n1 have c1: "startedAt (run ?a1 initialState) = None"
    "currentSessionTime (run ?a1 initialState) = 0" by blast+
  from T2 n2 have c2: "startedAt (run ?a2 initialState) \<noteq> None" by blast
  from T1 have c3: "prefix (sessions (run ?a1 initialState)) (sessions (run (?a1 @ ?l) initialState))"
    by blast
  from n1 n2 c1 c2 c3 show ?thesis by blast
qed

lemma perform_cooldown: "emergencyUnlockCooldown (perform a s) = emergencyUnlockCooldown s"
  by (cases a)
     (auto simp: startFocusMode_def stopFocusMode_def updateSessionTime_def
        addRestrictedApp_def removeRestrictedApp_def toggleRestrictedApp_def
        updateRestrictedApp_def resetFocusMode_def emergencyUnlock_def Let_def
        split: option.splits)

lemma run_cooldown: "emergencyUnlockCooldown (run acts s) = emergencyUnlockCooldown s"
  by (induction acts arbitrary: s) (simp_all add: perform_cooldown)

lemma perform_positive:
  "positiveTimestamps s \<Longrightarrow> list_all (\<lambda>t. 0 < t) (clockReadings a) \<Longrightarrow>
   positiveTimestamps (perform a s)"
  by (cases a)
     (auto simp: positiveTimestamps_def startFocusMode_def stopFocusMode_def
        updateSessionTime_def addRestrictedApp_def removeRestrictedApp_def
        toggleRestrictedApp_def updateRestrictedApp_def resetFocusMode_def
        emergencyUnlock_def Let_def split: option.splits)

lemma run_positive:
  "positiveTimestamps s \<Longrightarrow> positiveClock acts \<Longrightarrow> positiveTimestamps (run acts s)"
proof (induction acts arbitrary: s)
  case Nil then show ?case by simp
next
  case (Cons a acts)
  from Cons.prems(2) have a: "list_all (\<lambda>t. 0 < t) (clockReadings a)" and r: "positiveClock acts"
    by (simp_all add: positiveClock_def)
  from perform_positive[OF Cons.prems(1) a] have "positiveTimestamps (perform a s)" .
  from Cons.IH[OF this r] show ?case by simp
qed

lemma perform_keeps:
  "keepsUnlockRecord a \<Longrightarrow> lastEmergencyUnlock (perform a s) = lastEmergencyUnlock s"
  by (cases a)
     (auto simp: startFocusMode_def stopFocusMode_def updateSessionTime_def
        addRestrictedApp_def removeRestrictedApp_def toggleRestrictedApp_def
        updateRestrictedApp_def Let_def split: option.splits)

lemma run_keeps:
  "list_all keepsUnlockRecord acts \<Longrightarrow> lastEmergencyUnlock (run acts s) = lastEmergencyUnlock s"
  by (induction acts arbitrary: s) (simp_all add: perform_keeps)

lemma initial_positive: "positiveTimestamps initialState"
  by (simp add: positiveTimestamps_def initialState_def)

lemma canEmergencyUnlock_positive:
  "positiveTimestamps s \<Longrightarrow>
   canEmergencyUnlock now s =
     (isActive s \<and> (\<forall>t. lastEmergencyUnlock s = Some t \<longrightarrow> now - t \<ge> emergencyUnlockCooldown s))"
  by (auto simp: canEmergencyUnlock_def positiveTimestamps_def truthy_def split: option.splits)

lemma emergencyUnlock_success:
  assumes "canEmergencyUnlock nowCheck s" and "startedAt s = Some started" and "started \<noteq> 0"
  shows "emergencyUnlock nowCheck nowStop newId nowRecord s =
     (True, s\<lparr>isActive := False, startedAt := None, currentSessionTime := 0,
              totalFocusTime := totalFocusTime s + (nowStop - started),
              sessions := sessions s @
                [\<lparr>session_id = newId, session_startedAt = started, endedAt = nowStop,
                  duration = nowStop - started, tasksCompleted = 0,
                  wasUnlockedNaturally = False\<rparr>],
              lastEmergencyUnlock := Some nowRecord\<rparr>)"
  using assms by (simp add: emergencyUnlock_def stopFocusMode_active)

lemma emergencyUnlock_records:
  "canEmergencyUnlock nowCheck s \<Longrightarrow>
   lastEmergencyUnlock (snd (emergencyUnlock nowCheck nowStop newId nowRecord s)) = Some nowRecord \<and>
   emergencyUnlockCooldown (snd (emergencyUnlock nowCheck nowStop newId nowRecord s)) =
     emergencyUnlockCooldown s"
  by (auto simp: emergencyUnlock_def stopFocusMode_def Let_def split: option.splits)

lemma emergencyUnlock_on_cooldown:
  assumes "lastEmergencyUnlock s = Some t" and "t \<noteq> 0" and "now - t < emergencyUnlockCooldown s"
  shows "emergencyUnlock now nowStop newId nowRecord s = (False, s)"
  using assms by (simp add: emergencyUnlock_def canEmergencyUnlock_def truthy_def)

text \<open>
  \<open>resetFocusMode\<close> clears the record of the emergency unlock: after a session is
  started and unlocked at 2002, then reset and started again, an \<open>emergencyUnlock\<close> two
  seconds after the first returns true.
\<close>

theorem C7_reset_clears_cooldown_counterexample:
  "fst (emergencyUnlock 2000 2001 ''x'' 2002 (run [StartFocusMode 1000] initialState)) = True
   \<and> (4002 :: int) - 2002 < 30 * 60 * 1000
   \<and> fst (emergencyUnlock 4002 4003 ''y'' 4004
        (run [ResetFocusMode, StartFocusMode 3000]
           (snd (emergencyUnlock 2000 2001 ''x'' 2002 (run [StartFocusMode 1000] initialState)))))
       = True"
  by (simp add: emergencyUnlock_def canEmergencyUnlock_def stopFocusMode_def startFocusMode_def
      resetFocusMode_def truthy_def initialState_def Let_def)

text \<open>
  Claim C7, as amended. Let the store be in a state reached from the initial one by any
  operations, on a clock whose readings are positive. The cooldown is 1 800 000 ms.
  \<open>canEmergencyUnlock\<close> is false exactly when the session is inactive or an emergency unlock
  was recorded less than the cooldown ago; then \<open>emergencyUnlock\<close> returns false and the
  state is unchanged. Otherwise it returns true, and the state is the one
  \<open>stopFocusMode(false, 0)\<close> leaves (the session closed and recorded with
  \<open>wasUnlockedNaturally = false\<close> and \<open>tasksCompleted = 0\<close>) with \<open>lastEmergencyUnlock\<close> set
  to the reading of the clock. After that, as long as \<open>resetFocusMode\<close> is not called,
  whatever other operations come between, the next \<open>emergencyUnlock\<close> less than 30 minutes
  after the recorded time returns false and changes nothing.
\<close>

theorem C7_emergency_unlock:
  assumes "positiveClock acts" and "s = run acts initialState"
    and "0 < nowCheck" and "0 < nowStop" and "0 < nowRecord"
  shows "emergencyUnlockCooldown s = 1800000
   \<and> (\<not> canEmergencyUnlock nowCheck s) =
       (\<not> isActive s \<or>
        (\<exists>t. lastEmergencyUnlock s = Some t \<and> nowCheck - t < emergencyUnlockCooldown s))
   \<and> (\<not> canEmergencyUnlock nowCheck s \<longrightarrow>
        emergencyUnlock nowCheck nowStop newId nowRecord s = (False, s))
   \<and> (canEmergencyUnlock nowCheck s \<longrightarrow>
        (\<exists>started. startedAt s = Some started \<and>
           emergencyUnlock nowCheck nowStop newId nowRecord s =
             (True, s\<lparr>isActive := False, startedAt := None, currentSessionTime := 0,
                      totalFocusTime := totalFocusTime s + (nowStop - started),
                      sessions := sessions s @
                        [\<lparr>session_id = newId, session_startedAt = started, endedAt = nowStop,
                          duration = nowStop - started, tasksCompleted = 0,
                          wasUnlockedNaturally = False\<rparr>],
                      lastEmergencyUnlock := Some nowRecord\<rparr>)))
   \<and> (canEmergencyUnlock nowCheck s \<and> list_all keepsUnlockRecord between
        \<and> now2 - nowRecord < 1800000 \<longrightarrow>
        emergencyUnlock now2 nowStop2 newId2 nowRecord2
          (run between (snd (emergencyUnlock nowCheck nowStop newId nowRecord s))) =
        (False, run between (snd (emergencyUnlock nowCheck nowStop newId nowRecord s))))"
proof -
  from assms(1,2) have pos: "positiveTimestamps s"
    by (simp add: run_positive[OF initial_positive])
  from assms(2) have inv: "lifecycleInvariant s"
    by (simp add: run_invariant[OF initial_invariant])
  from assms(2) have cd: "emergencyUnlockCooldown s = 1800000"
    by (simp add: run_cooldown initialState_def)
  have b: "(\<not> canEmergencyUnlock nowCheck s) =
       (\<not> isActive s \<or>
        (\<exists>t. lastEmergencyUnlock s = Some t \<and> nowCheck - t < emergencyUnlockCooldown s))"
    unfolding canEmergencyUnlock_positive[OF pos] by auto
  have c: "\<not> canEmergencyUnlock nowCheck s \<longrightarrow>
        emergencyUnlock nowCheck nowStop newId nowRecord s = (False, s)"
    by (simp add: emergencyUnlock_def)
  have d: "canEmergencyUnlock nowCheck s \<longrightarrow>
        (\<exists>started. startedAt s = Some started \<and>
           emergencyUnlock nowCheck nowStop newId nowRecord s =
             (True, s\<lparr>isActive := False, startedAt := None, currentSessionTime := 0,
                      totalFocusTime := totalFocusTime s + (nowStop - started),
                      sessions := sessions s @
                        [\<lparr>session_id = newId, session_startedAt = started, endedAt = nowStop,
                          duration = nowStop - started, tasksCompleted = 0,
                          wasUnlockedNaturally = False\<rparr>],
                      lastEmergencyUnlock := Some nowRecord\<rparr>))"
  proof
    assume can: "canEmergencyUnlock nowCheck s"
    then have "isActive s" by (simp add: canEmergencyUnlock_def split: if_splits)
    with inv obtain started where st: "startedAt s = Some started"
      by (auto simp: lifecycleInvariant_def)
    with pos have "started \<noteq> 0" by (simp add: positiveTimestamps_def)
    from emergencyUnlock_success[OF can st this] st
    show "\<exists>started. startedAt s = Some started \<and>
           emergencyUnlock nowCheck nowStop newId nowRecord s =
             (True, s\<lparr>isActive := False, startedAt := None, currentSessionTime := 0,
                      totalFocusTime := totalFocusTime s + (nowStop - started),
                      sessions := sessions s @
                        [\<lparr>session_id = newId, session_startedAt = started, endedAt = nowStop,
                          duration = nowStop - started, tasksCompleted = 0,
                          wasUnlockedNaturally = False\<rparr>],
                      lastEmergencyUnlock := Some nowRecord\<rparr>)"
      by blast
  qed
  have e: "canEmergencyUnlock nowCheck s \<and> list_all keepsUnlockRecord between
        \<and> now2 - nowRecord < 1800000 \<longrightarrow>
        emergencyUnlock now2 nowStop2 newId2 nowRecord2
          (run between (snd (emergencyUnlock nowCheck nowStop newId nowRecord s))) =
        (False, run between (snd (emergencyUnlock nowCheck nowStop newId nowRecord s)))"
  proof
    let ?s1 = "snd (emergencyUnlock nowCheck nowStop newId nowRecord s)"
    assume h: "canEmergencyUnlock nowCheck s \<and> list_all keepsUnlockRecord between
        \<and> now2 - nowRecord < 1800000"
    with emergencyUnlock_records[of nowCheck s nowStop newId nowRecord] cd
    have r: "lastEmergencyUnlock ?s1 = Some nowRecord" "emergencyUnlockCooldown ?s1 = 1800000"
      by simp_all
    from h r(1) have l: "lastEmergencyUnlock (run between ?s1) = Some nowRecord"
      by (simp add: run_keeps)
    from r(2) have k: "emergencyUnlockCooldown (run between ?s1) = 1800000"
      by (simp add: run_cooldown)
    from assms(5) have nz: "nowRecord \<noteq> 0" by simp
    from h k have lt: "now2 - nowRecord < emergencyUnlockCooldown (run between ?s1)" by simp
    show "emergencyUnlock now2 nowStop2 newId2 nowRecord2 (run between ?s1) =
        (False, run between ?s1)"
      by (rule emergencyUnlock_on_cooldown[OF l nz lt])
  qed
  from cd b c d e show ?thesis by blast
qed

theorem C7_emergency_unlock_witness:
  "canEmergencyUnlock 2000 (run [StartFocusMode 1000] initialState)
   \<and> fst (emergencyUnlock 2000 2001 ''x'' 2002 (run [StartFocusMode 1000] initialState))
   \<and> isActive (snd (emergencyUnlock 2000 2001 ''x'' 2002 (run [StartFocusMode 1000] initialState)))
       = False
   \<and> sessions (snd (emergencyUnlock 2000 2001 ''x'' 2002 (run [StartFocusMode 1000] initialState)))
       = [\<lparr>session_id = ''x'', session_startedAt = 1000, endedAt = 2001, duration = 1001,
           tasksCompleted = 0, wasUnlockedNaturally = False\<rparr>]
   \<and> lastEmergencyUnlock
        (snd (emergencyUnlock 2000 2001 ''x'' 2002 (run [StartFocusMode 1000] initialState)))
       = Some 2002
   \<and> fst (emergencyUnlock 5000 5001 ''y'' 5002
        (run [StartFocusMode 3000]
           (snd (emergencyUnlock 2000 2001 ''x'' 2002 (run [StartFocusMode 1000] initialState)))))
       = False
   \<and> \<not> canEmergencyUnlock 2000 (run [] initialState)
   \<and> emergencyUnlock 2000 2001 ''x'' 2002 (run [] initialState) = (False, run [] initialState)"
proof -
  let ?s = "run [StartFocusMode 1000] initialState"
  let ?e = "emergencyUnlock 2000 2001 ''x'' 2002 ?s"
  have pc: "positiveClock [StartFocusMode 1000]" "positiveClock []"
    by (simp_all add: positiveClock_def)
  have can: "canEmergencyUnlock 2000 ?s"
    by (simp add: canEmergencyUnlock_def startFocusMode_def initialState_def)
  have ncan: "\<not> canEmergencyUnlock 2000 (run [] initialState)"
    by (simp add: canEmergencyUnlock_def initialState_def)
  have st: "startedAt ?s = Some 1000" "sessions ?s = []"
    by (simp_all add: startFocusMode_def initialState_def)
  have k: "list_all keepsUnlockRecord [StartFocusMode 3000]" by simp
  note T = C7_emergency_unlock[OF pc(1) refl, of 2000 2001 2002 "''x''" "[StartFocusMode 3000]"
      5000 5001 "''y''" 5002]
  note U = C7_emergency_unlock[OF pc(2) refl, of 2000 2001 2002 "''x''" "[]" 5000 5001 "''y''" 5002]
  from T can st(1) have ev: "?e =
     (True, ?s\<lparr>isActive := False, startedAt := None, currentSessionTime := 0,
              totalFocusTime := totalFocusTime ?s + (2001 - 1000),
              sessions := sessions ?s @
                [\<lparr>session_id = ''x'', session_startedAt = 1000, endedAt = 2001,
                  duration = 2001 - 1000, tasksCompleted = 0,
                  wasUnlockedNaturally = False\<rparr>],
              lastEmergencyUnlock := Some 2002\<rparr>)"
    by auto
  from T can k have second:
    "emergencyUnlock 5000 5001 ''y'' 5002 (run [StartFocusMode 3000] (snd ?e)) =
        (False, run [StartFocusMode 3000] (snd ?e))"
    by simp
  from U ncan have first: "emergencyUnlock 2000 2001 ''x'' 2002 (run [] initialState) =
        (False, run [] initialState)"
    by simp
  have a: "fst ?e" "isActive (snd ?e) = False" "lastEmergencyUnlock (snd ?e) = Some 2002"
    "sessions (snd ?e) = [\<lparr>session_id = ''x'', session_startedAt = 1000, endedAt = 2001,
       duration = 1001, tasksCompleted = 0, wasUnlockedNaturally = False\<rparr>]"
    unfolding ev by (simp_all add: startFocusMode_def initialState_def)
  from second have b: "fst (emergencyUnlock 5000 5001 ''y'' 5002
      (run [StartFocusMode 3000] (snd ?e))) = False"
    by (simp only: fst_conv)
  from can a b ncan first show ?thesis by blast
qed

end
